theory Spec2Isabelle
  imports Main
begin

section \<open>Python values and strings\<close>

text \<open>
  A Python \<open>str\<close> is modelled by a \<open>string\<close> holding its UTF-8 bytes. All string
  operations below act on ASCII characters exactly as Python does and pass every byte
  above 127 through unchanged. A Python \<open>float\<close> is carried around by its \<open>repr\<close>
  text: the code under study only prints floats or hands them on.
\<close>

type_synonym pyfloat = string

datatype level = Debug | Info | Warning | Error

type_synonym log_entry = "level \<times> string"

datatype exn =
    ValueError string
  | RuntimeError string
  | FileNotFoundError string
  | OtherException string

fun exn_str :: "exn \<Rightarrow> string" where
  "exn_str (ValueError m) = m"
| "exn_str (RuntimeError m) = m"
| "exn_str (FileNotFoundError m) = m"
| "exn_str (OtherException m) = m"

fun nat_str :: "nat \<Rightarrow> string" where
  "nat_str n = (if n < 10 then [char_of (48 + n)] else nat_str (n div 10) @ [char_of (48 + n mod 10)])"

declare nat_str.simps [simp del]

definition int_str :: "int \<Rightarrow> string" where
  "int_str i = (if i < 0 then CHR ''-'' # nat_str (nat (- i)) else nat_str (nat i))"

definition is_space :: "char \<Rightarrow> bool" where
  \<comment> \<open>\<open>str.isspace\<close> on ASCII: tab, LF, VT, FF, CR, FS, GS, RS, US and the space\<close>
  "is_space c = ((of_char c :: nat) \<in> {9, 10, 11, 12, 13, 28, 29, 30, 31, 32})"

definition py_strip :: "string \<Rightarrow> string" where
  "py_strip s = rev (dropWhile is_space (rev (dropWhile is_space s)))"

fun py_join :: "string \<Rightarrow> string list \<Rightarrow> string" where
  "py_join sep [] = []"
| "py_join sep [x] = x"
| "py_join sep (x # y # ys) = x @ sep @ py_join sep (y # ys)"

fun py_in :: "string \<Rightarrow> string \<Rightarrow> bool" where
  \<comment> \<open>\<open>sub in s\<close> on strings: \<open>sub\<close> occurs in \<open>s\<close> as a contiguous substring\<close>
  "py_in sub [] = (sub = [])"
| "py_in sub (c # cs) = (take (length sub) (c # cs) = sub \<or> py_in sub cs)"

abbreviation newline :: string where
  "newline \<equiv> [CHR 0x0A]"

definition hex_digit :: "nat \<Rightarrow> char" where
  "hex_digit d = (if d < 10 then char_of (48 + d) else char_of (87 + d))"

definition repr_char :: "char \<Rightarrow> char \<Rightarrow> string" where
  \<comment> \<open>one character inside \<open>repr\<close> of a string that is quoted with \<open>q\<close>\<close>
  "repr_char q c =
     (if c = q \<or> c = CHR 0x5C then [CHR 0x5C, c]
      else if c = CHR 0x09 then [CHR 0x5C, CHR ''t'']
      else if c = CHR 0x0A then [CHR 0x5C, CHR ''n'']
      else if c = CHR 0x0D then [CHR 0x5C, CHR ''r'']
      else if (of_char c :: nat) < 32 \<or> (of_char c :: nat) = 127
        then [CHR 0x5C, CHR ''x'', hex_digit (of_char c div 16), hex_digit (of_char c mod 16)]
      else [c])"

definition repr_str :: "string \<Rightarrow> string" where
  \<comment> \<open>\<open>repr\<close> of a string: single quotes, unless it holds a single and no double quote\<close>
  "repr_str s =
     (let q = (if CHR 0x27 \<in> set s \<and> CHR 0x22 \<notin> set s then CHR 0x22 else CHR 0x27)
      in q # concat (map (repr_char q) s) @ [q])"

text \<open>
  The values \<open>json.loads\<close> produces. A dictionary is the list of its items in insertion
  order (the keys of a Python dictionary are distinct).
\<close>

datatype pyval =
    PNone
  | PBool bool
  | PInt int
  | PFloat pyfloat
  | PStr string
  | PList "pyval list"
  | PDict "(string \<times> pyval) list"

fun py_repr :: "pyval \<Rightarrow> string" where
  "py_repr PNone = ''None''"
| "py_repr (PBool b) = (if b then ''True'' else ''False'')"
| "py_repr (PInt i) = int_str i"
| "py_repr (PFloat r) = r"
| "py_repr (PStr s) = repr_str s"
| "py_repr (PList xs) = ''['' @ py_join '', '' (map py_repr xs) @ '']''"
| "py_repr (PDict kvs) =
     ''{'' @ py_join '', '' (map (\<lambda>(k, v). repr_str k @ '': '' @ py_repr v) kvs) @ ''}''"

definition py_str :: "pyval \<Rightarrow> string" where
  \<comment> \<open>\<open>str(v)\<close>: a string is itself, everything else prints as its \<open>repr\<close>\<close>
  "py_str v = (case v of PStr s \<Rightarrow> s | _ \<Rightarrow> py_repr v)"

fun is_str :: "pyval \<Rightarrow> bool" where
  "is_str (PStr s) = True"
| "is_str v = False"

fun is_list :: "pyval \<Rightarrow> bool" where
  "is_list (PList xs) = True"
| "is_list v = False"

fun is_dict :: "pyval \<Rightarrow> bool" where
  "is_dict (PDict kvs) = True"
| "is_dict v = False"

fun find_sep :: "string \<Rightarrow> string \<Rightarrow> (string \<times> string) option" where
  \<comment> \<open>the text before and after the first occurrence of \<open>sep\<close>, if there is one\<close>
  "find_sep sep [] = (if sep = [] then Some ([], []) else None)"
| "find_sep sep (c # cs) =
     (if take (length sep) (c # cs) = sep then Some ([], drop (length sep) (c # cs))
      else map_option (\<lambda>(b, a). (c # b, a)) (find_sep sep cs))"

definition split_first :: "string \<Rightarrow> string \<Rightarrow> string" where
  \<comment> \<open>\<open>s.split(sep)[0]\<close>\<close>
  "split_first sep s = (case find_sep sep s of None \<Rightarrow> s | Some (b, a) \<Rightarrow> b)"

definition split_second :: "string \<Rightarrow> string \<Rightarrow> string option" where
  \<comment> \<open>\<open>s.split(sep)[1]\<close>; \<open>None\<close> is the \<open>IndexError\<close> when \<open>sep\<close> does not occur\<close>
  "split_second sep s = (case find_sep sep s of None \<Rightarrow> None | Some (b, a) \<Rightarrow> Some (split_first sep a))"

definition two_digits :: "int \<Rightarrow> string" where
  "two_digits i = (if i < 10 then CHR ''0'' # int_str i else int_str i)"

section \<open>The retrying MCP client (YouTube_MCP_Autogen_based_client.py)\<close>

datatype conn_event = Discover int | Sleep pyfloat

record 't client =
  max_retries :: int
  retry_delay :: pyfloat
  tools :: "'t list option"
  events :: "conn_event list"
  clog :: "log_entry list"

definition client_init :: "int \<Rightarrow> pyfloat \<Rightarrow> 't client" where
  "client_init n d = \<lparr>max_retries = n, retry_delay = d, tools = None, events = [], clog = []\<rparr>"

definition clog_add :: "level \<Rightarrow> string \<Rightarrow> 't client \<Rightarrow> 't client" where
  "clog_add l m c = c\<lparr>clog := clog c @ [(l, m)]\<rparr>"

definition event_add :: "conn_event \<Rightarrow> 't client \<Rightarrow> 't client" where
  "event_add e c = c\<lparr>events := events c @ [e]\<rparr>"

text \<open>
  \<open>connect\<close>: the body of \<open>for attempt in range(1, self.max_retries + 1)\<close>, started at
  \<open>attempt = 1\<close>. The first argument gives the outcome of
  \<open>await mcp_server_tools(server_params)\<close> in each attempt: \<open>Inl e\<close> when it raises
  the exception \<open>e\<close>, \<open>Inr ts\<close> when it returns the tool list. When the range is
  empty the loop body never runs and the Python function returns \<open>None\<close>.
\<close>

function connect_loop ::
  "(int \<Rightarrow> exn + 't list) \<Rightarrow> int \<Rightarrow> 't client \<Rightarrow> (exn + 't list option) \<times> 't client" where
  "connect_loop mcp_server_tools attempt c =
     (if max_retries c < attempt then (Inr None, c)
      else
        let c1 = clog_add Info (''Connecting to MCP server (attempt '' @ int_str attempt @ ''/''
                                 @ int_str (max_retries c) @ '')...'') c;
            c2 = event_add (Discover attempt) c1
        in case mcp_server_tools attempt of
             Inr ts \<Rightarrow>
               (Inr (Some ts),
                clog_add Info (''Retrieved '' @ nat_str (length ts) @ '' tools from MCP server.'')
                  (c2\<lparr>tools := Some ts\<rparr>))
           | Inl e \<Rightarrow>
               let c3 = clog_add Error (''Failed to connect to MCP server: '' @ exn_str e) c2
               in if attempt < max_retries c
                  then connect_loop mcp_server_tools (attempt + 1)
                         (event_add (Sleep (retry_delay c))
                            (clog_add Info (''Retrying in '' @ retry_delay c @ '' seconds...'') c3))
                  else (Inl e,
                        clog_add Error
                          ''Maximum retry attempts reached. Could not connect to server.'' c3))"
  by pat_completeness auto
termination
  by (relation "measure (\<lambda>(f, attempt, c). nat (max_retries c + 1 - attempt))")
     (auto simp: clog_add_def event_add_def)

declare connect_loop.simps [simp del]

definition connect :: "(int \<Rightarrow> exn + 't list) \<Rightarrow> 't client \<Rightarrow> (exn + 't list option) \<times> 't client" where
  "connect mcp_server_tools c = connect_loop mcp_server_tools 1 c"

text \<open>\<open>get_tools\<close>: \<open>not self.tools\<close> is true for \<open>None\<close> and for the empty list.\<close>

definition get_tools :: "'t client \<Rightarrow> exn + 't list" where
  "get_tools c =
     (case tools c of
        None \<Rightarrow> Inl (RuntimeError ''Not connected to MCP server. Call connect() first.'')
      | Some ts \<Rightarrow>
          if ts = [] then Inl (RuntimeError ''Not connected to MCP server. Call connect() first.'')
          else Inr ts)"

text \<open>The event trace of \<open>k\<close> attempts starting at attempt \<open>a\<close>, of which all but the last are
  followed by a wait of \<open>d\<close>; the number of underlying calls and the waits of a trace.\<close>


fun retry_events :: "pyfloat \<Rightarrow> int \<Rightarrow> nat \<Rightarrow> conn_event list" where
  "retry_events d a 0 = []"
| "retry_events d a (Suc 0) = [Discover a]"
| "retry_events d a (Suc (Suc m)) = Discover a # Sleep d # retry_events d (a + 1) (Suc m)"

fun is_discover :: "conn_event \<Rightarrow> bool" where
  "is_discover (Discover a) = True"
| "is_discover (Sleep d) = False"

definition calls_made :: "conn_event list \<Rightarrow> nat" where
  "calls_made es = length (filter is_discover es)"

definition waits_made :: "conn_event list \<Rightarrow> conn_event list" where
  "waits_made es = filter (\<lambda>e. \<not> is_discover e) es"

section \<open>The event logger (client_logger.py)\<close>

subsection \<open>\<open>clean_result\<close>\<close>

function clean_result :: "pyval \<Rightarrow> string" where
  "clean_result (PDict kvs) =
     (case map_of kvs ''content'' of
        Some c \<Rightarrow>
          (case c of
             PList items \<Rightarrow> py_join newline (map clean_result items)
           | _ \<Rightarrow> py_str c)
      | None \<Rightarrow>
          (case map_of kvs ''text'' of
             Some t \<Rightarrow> py_str t
           | None \<Rightarrow> py_join newline (map py_str (filter is_str (map snd kvs)))))"
| "clean_result (PList items) = py_join newline (map clean_result items)"
| "clean_result (PStr s) = py_strip s"
| "clean_result PNone = py_str PNone"
| "clean_result (PBool b) = py_str (PBool b)"
| "clean_result (PInt i) = py_str (PInt i)"
| "clean_result (PFloat r) = py_str (PFloat r)"
  by pat_completeness auto
termination
proof (relation "measure size", goal_cases)
  case 1
  show ?case by simp
next
  case (2 kvs c items x)
  from 2(1,2) have "(''content'', PList items) \<in> set kvs"
    by (auto dest: map_of_SomeD)
  then have "size_prod (\<lambda>x. 0) size (''content'', PList items)
               \<le> size_list (size_prod (\<lambda>x. 0) size) kvs"
    by (rule size_list_estimation') simp
  moreover from 2(3) have "size x \<le> size_list size items"
    by (rule size_list_estimation') simp
  ultimately show ?case by simp
next
  case (3 items x)
  then have "size x \<le> size_list size items"
    by (rule size_list_estimation') simp
  then show ?case by simp
qed

subsection \<open>The flattening rules in the words of the specification\<close>

fun is_scalar :: "pyval \<Rightarrow> bool" where
  "is_scalar (PList xs) = False"
| "is_scalar (PDict kvs) = False"
| "is_scalar v = True"

text \<open>
  The rules as the specification words them, taken in order: a mapping with a \<open>content\<close>
  sequence; a mapping with a scalar \<open>content\<close>; else a mapping with \<open>text\<close>; else a mapping;
  a sequence; a string; anything else.
\<close>

function flatten_spec :: "pyval \<Rightarrow> string" where
  "flatten_spec (PDict kvs) =
     (case map_of kvs ''content'' of
        Some (PList items) \<Rightarrow> py_join newline (map flatten_spec items)
      | co \<Rightarrow>
          if co \<noteq> None \<and> is_scalar (the co)
          then py_str (the co)
          else (case map_of kvs ''text'' of
                  Some t \<Rightarrow> py_str t
                | None \<Rightarrow> py_join newline (map py_str (filter is_str (map snd kvs)))))"
| "flatten_spec (PList items) = py_join newline (map flatten_spec items)"
| "flatten_spec (PStr s) = py_strip s"
| "flatten_spec PNone = py_str PNone"
| "flatten_spec (PBool b) = py_str (PBool b)"
| "flatten_spec (PInt i) = py_str (PInt i)"
| "flatten_spec (PFloat r) = py_str (PFloat r)"
  by pat_completeness auto
termination
proof (relation "measure size", goal_cases)
  case 1
  show ?case by simp
next
  case (2 kvs c items x)
  from 2(1,2) have "(''content'', PList items) \<in> set kvs"
    by (auto dest: map_of_SomeD)
  then have "size_prod (\<lambda>x. 0) size (''content'', PList items)
               \<le> size_list (size_prod (\<lambda>x. 0) size) kvs"
    by (rule size_list_estimation') simp
  moreover from 2(3) have "size x \<le> size_list size items"
    by (rule size_list_estimation') simp
  ultimately show ?case by simp
next
  case (3 items x)
  then have "size x \<le> size_list size items"
    by (rule size_list_estimation') simp
  then show ?case by simp
qed

text \<open>
  The same rules with the second one read as "a mapping with a \<open>content\<close> that is not a
  sequence", whether that \<open>content\<close> is a scalar or itself a mapping.
\<close>

function flatten_amended :: "pyval \<Rightarrow> string" where
  "flatten_amended (PDict kvs) =
     (case map_of kvs ''content'' of
        Some (PList items) \<Rightarrow> py_join newline (map flatten_amended items)
      | co \<Rightarrow>
          if co \<noteq> None
          then py_str (the co)
          else (case map_of kvs ''text'' of
                  Some t \<Rightarrow> py_str t
                | None \<Rightarrow> py_join newline (map py_str (filter is_str (map snd kvs)))))"
| "flatten_amended (PList items) = py_join newline (map flatten_amended items)"
| "flatten_amended (PStr s) = py_strip s"
| "flatten_amended PNone = py_str PNone"
| "flatten_amended (PBool b) = py_str (PBool b)"
| "flatten_amended (PInt i) = py_str (PInt i)"
| "flatten_amended (PFloat r) = py_str (PFloat r)"
  by pat_completeness auto
termination
proof (relation "measure size", goal_cases)
  case 1
  show ?case by simp
next
  case (2 kvs c items x)
  from 2(1,2) have "(''content'', PList items) \<in> set kvs"
    by (auto dest: map_of_SomeD)
  then have "size_prod (\<lambda>x. 0) size (''content'', PList items)
               \<le> size_list (size_prod (\<lambda>x. 0) size) kvs"
    by (rule size_list_estimation') simp
  moreover from 2(3) have "size x \<le> size_list size items"
    by (rule size_list_estimation') simp
  ultimately show ?case by simp
next
  case (3 items x)
  then have "size x \<le> size_list size items"
    by (rule size_list_estimation') simp
  then show ?case by simp
qed

subsection \<open>\<open>log_event\<close>\<close>

text \<open>
  An event is seen through \<open>str(event)\<close> and its attribute \<open>content\<close>. \<open>json.loads\<close>
  raises \<open>TypeError\<close> on a value that is not a string, so such a \<open>content\<close> needs no
  further detail. The library function \<open>json.loads\<close> is a parameter of the model:
  \<open>None\<close> stands for its raising.
\<close>

datatype content_attr = NoContent | StrContent string | OtherContent

record event =
  ev_str :: string
  ev_content :: content_attr

datatype kind =
    UserInputRequested
  | ToolCallRequested
  | ToolCallExecuted
  | ToolCallSummary
  | TextMessage
  | TaskResult
  | Other

definition kind_of :: "event \<Rightarrow> kind" where
  \<comment> \<open>the \<open>if\<close>/\<open>elif\<close> chain of step 2, in its order\<close>
  "kind_of ev =
     (if py_in ''UserInputRequestedEvent'' (ev_str ev) then UserInputRequested
      else if py_in ''ToolCallRequestEvent'' (ev_str ev) then ToolCallRequested
      else if py_in ''ToolCallExecutionEvent'' (ev_str ev) then ToolCallExecuted
      else if py_in ''ToolCallSummaryMessage'' (ev_str ev) then ToolCallSummary
      else if py_in ''TextMessage'' (ev_str ev) then TextMessage
      else if py_in ''TaskResult'' (ev_str ev) then TaskResult
      else Other)"

definition clean_text :: "(string \<Rightarrow> pyval option) \<Rightarrow> event \<Rightarrow> string" where
  \<comment> \<open>step 1: the \<open>try\<close> block and its \<open>except Exception\<close> fallback\<close>
  "clean_text json_loads ev =
     (case (case ev_content ev of
              StrContent s \<Rightarrow> json_loads s
            | OtherContent \<Rightarrow> None
            | NoContent \<Rightarrow> json_loads (ev_str ev)) of
        Some parsed \<Rightarrow> clean_result parsed
      | None \<Rightarrow> clean_result (PStr (ev_str ev)))"

text \<open>
  The state \<open>log_event\<close> works on: the function attribute
  \<open>log_event._last_tool_result\<close> (\<open>None\<close> until the first tool result), the texts handed to
  \<open>print\<close>, and the messages handed to \<open>logger.info\<close>, each with the logger it was given to.
\<close>

record logger_state =
  last_tool_result :: "string option"
  console :: "string list"
  logged :: "(string \<times> string) list"

definition logger_init :: logger_state where
  "logger_init = \<lparr>last_tool_result = None, console = [], logged = []\<rparr>"

definition satellite_marker :: string where
  \<comment> \<open>U+1F4E1 in UTF-8\<close>
  "satellite_marker = [CHR 0xF0, CHR 0x9F, CHR 0x93, CHR 0xA1]"

definition check_marker :: string where
  \<comment> \<open>U+2705 in UTF-8\<close>
  "check_marker = [CHR 0xE2, CHR 0x9C, CHR 0x85]"

definition emit :: "string \<Rightarrow> bool \<Rightarrow> string \<Rightarrow> logger_state \<Rightarrow> logger_state" where
  \<comment> \<open>step 3: \<open>print("\n" + msg)\<close> when asked for, then \<open>logger.info(msg)\<close>\<close>
  "emit logger print_to_console msg st =
     (let st1 = (if print_to_console then st\<lparr>console := console st @ [newline @ msg]\<rparr> else st)
      in st1\<lparr>logged := logged st1 @ [(logger, msg)]\<rparr>)"

definition log_event ::
  "(string \<Rightarrow> pyval option) \<Rightarrow> string \<Rightarrow> event \<Rightarrow> bool \<Rightarrow> logger_state \<Rightarrow> logger_state" where
  "log_event json_loads logger ev print_to_console st =
     (let clean = clean_text json_loads ev
      in case kind_of ev of
           UserInputRequested \<Rightarrow>
             emit logger print_to_console ''[System]: Waiting for user input...'' st
         | ToolCallRequested \<Rightarrow>
             emit logger print_to_console ''[System]: Calling tool...'' st
         | ToolCallExecuted \<Rightarrow>
             if last_tool_result st = Some clean then st
             else emit logger print_to_console (satellite_marker @ '' '' @ clean)
                    (st\<lparr>last_tool_result := Some clean\<rparr>)
         | ToolCallSummary \<Rightarrow>
             if last_tool_result st = Some clean then st
             else emit logger print_to_console (check_marker @ '' '' @ clean)
                    (st\<lparr>last_tool_result := Some clean\<rparr>)
         | TextMessage \<Rightarrow> emit logger print_to_console clean st
         | TaskResult \<Rightarrow> emit logger print_to_console ''[System]: Task completed.'' st
         | Other \<Rightarrow> emit logger print_to_console clean st)"

text \<open>
  A sequence of calls \<open>log_event(logger, event, print_to_console=True)\<close> in one process, as
  the loop over \<open>team.run_stream\<close> in \<open>main\<close> makes them; each call names its logger.
\<close>

definition log_events ::
  "(string \<Rightarrow> pyval option) \<Rightarrow> (string \<times> event) list \<Rightarrow> logger_state \<Rightarrow> logger_state" where
  "log_events json_loads calls st =
     fold (\<lambda>(logger, ev) s. log_event json_loads logger ev True s) calls st"

definition is_tool_result :: "event \<Rightarrow> bool" where
  "is_tool_result ev = (kind_of ev = ToolCallExecuted \<or> kind_of ev = ToolCallSummary)"

definition marker_of :: "kind \<Rightarrow> string" where
  "marker_of k = (if k = ToolCallExecuted then satellite_marker else check_marker)"

definition last_tool_text :: "(string \<Rightarrow> pyval option) \<Rightarrow> (string \<times> event) list \<Rightarrow> string option" where
  \<comment> \<open>the clean text of the last tool result among the calls, whatever its logger\<close>
  "last_tool_text json_loads calls =
     (case filter (\<lambda>(logger, ev). is_tool_result ev) calls of
        [] \<Rightarrow> None
      | c # cs \<Rightarrow> Some (clean_text json_loads (snd (last (c # cs)))))"

definition lines_of :: "string \<Rightarrow> logger_state \<Rightarrow> string list" where
  \<comment> \<open>what the log sink of one logger received\<close>
  "lines_of logger st = map snd (filter (\<lambda>(l, m). l = logger) (logged st))"

section \<open>The acquisition pipeline (Youtube_mcp_server.py)\<close>

subsection \<open>The world outside the pipeline\<close>

text \<open>
  The file system is seen through what the code asks of it: \<open>dirs\<close> lists the directories
  \<open>os.walk(OUTPUT_DIR)\<close> yields, in its order (nothing when \<open>OUTPUT_DIR\<close> does not
  exist), and \<open>files\<close> maps a directory and a file name to the content of that file. Names
  are compared as whole strings: the video id is taken to be one path component.
  \<open>trace\<close> records every invocation of a stage function and every call of an external
  collaborator, \<open>log\<close> the records handed to the module's logger (level and an abridged
  text, without the emoji and the echoed process output; \<open>logger.debug\<close> is below the
  configured level \<open>INFO\<close> and leaves no record).
\<close>

datatype stage = Download | Transcript | Metadata | Summary

datatype call =
    Stage stage
  | YtDlpVersion
  | YtDlp string string
  | GetTranscript string
  | GetMetadata string
  | GenerateContent string

record world =
  dirs :: "string list"
  files :: "(string \<times> string) \<rightharpoonup> string"
  trace :: "call list"
  log :: "log_entry list"

text \<open>
  The replies of the external collaborators. \<open>DlOk\<close>: \<open>yt-dlp\<close> exits with status 0,
  having written the merged file; \<open>DlFailed\<close>: \<open>CalledProcessError\<close> with its
  \<open>stderr\<close>. \<open>TrEntries\<close>: the transcript entries, each with \<open>int(entry['start'])\<close> and
  its text; \<open>TrUnavailable\<close>: \<open>TranscriptsDisabled\<close> or \<open>NoTranscriptFound\<close>;
  \<open>TrError\<close>: any other exception. \<open>MdSnippet\<close>: the text \<open>json.dump\<close> writes for the
  snippet of the first item; \<open>MdNoItems\<close>: a reply without items; \<open>MdRequestError\<close>: a
  \<open>RequestException\<close> (with \<open>raise_for_status\<close>); \<open>MdError\<close>: any other exception.
  \<open>GmText\<close>: status 200 with the text of the first candidate; \<open>GmStatus\<close>: another
  status; \<open>GmNoCandidates\<close>: no candidates; \<open>GmError\<close>: any exception on the way.
\<close>

datatype ytdlp_reply = DlOk string | DlFailed string

datatype transcript_reply = TrEntries "(int \<times> string) list" | TrUnavailable string | TrError string

datatype metadata_reply = MdSnippet string | MdNoItems | MdRequestError string | MdError string

datatype gemini_reply = GmText string | GmStatus string string | GmNoCandidates | GmError string

text \<open>
  The environment of a run. \<open>query_v\<close> is
  \<open>parse_qs(urlparse(url).query).get("v", [None])[0]\<close>; \<open>json_reformat\<close> is
  \<open>json.dumps(json.load(f), indent=2)\<close> on the text of a file, \<open>None\<close> when
  \<open>json.load\<close> raises; \<open>prompt_template\<close> is the Jinja template at
  \<open>PROMPT_TEMPLATE_PATH\<close>, rendering \<open>video_url\<close> and \<open>video_metadata\<close>, \<open>None\<close> when
  the file does not exist. An environment that is the same in two runs is what "no external
  state change" means.
\<close>

record env =
  output_dir :: string
  query_v :: "string \<Rightarrow> string option"
  yt_dlp_installed :: bool
  yt_dlp :: "string \<Rightarrow> string \<Rightarrow> ytdlp_reply"
  get_transcript :: "string \<Rightarrow> transcript_reply"
  youtube_api :: "string \<Rightarrow> metadata_reply"
  json_reformat :: "string \<Rightarrow> string option"
  prompt_template :: "(string \<Rightarrow> string \<Rightarrow> string) option"
  gemini :: "string \<Rightarrow> string \<Rightarrow> gemini_reply"

definition log_add :: "level \<Rightarrow> string \<Rightarrow> world \<Rightarrow> world" where
  "log_add l m w = w\<lparr>log := log w @ [(l, m)]\<rparr>"

definition call_add :: "call \<Rightarrow> world \<Rightarrow> world" where
  "call_add c w = w\<lparr>trace := trace w @ [c]\<rparr>"

definition makedirs :: "string \<Rightarrow> world \<Rightarrow> world" where
  \<comment> \<open>\<open>os.makedirs(folder, exist_ok=True)\<close>\<close>
  "makedirs folder w = (if folder \<in> set (dirs w) then w else w\<lparr>dirs := dirs w @ [folder]\<rparr>)"

definition write_file :: "string \<Rightarrow> string \<Rightarrow> string \<Rightarrow> world \<Rightarrow> world" where
  "write_file folder name content w = w\<lparr>files := (files w)((folder, name) \<mapsto> content)\<rparr>"

definition file_exists :: "world \<Rightarrow> string \<Rightarrow> string \<Rightarrow> bool" where
  \<comment> \<open>\<open>os.path.exists(os.path.join(folder, name))\<close>\<close>
  "file_exists w folder name = (files w (folder, name) \<noteq> None)"

definition path_join :: "string \<Rightarrow> string \<Rightarrow> string" where
  "path_join a b = a @ ''/'' @ b"

definition media_name :: "string \<Rightarrow> string" where
  "media_name vid = vid @ ''.mkv''"

definition transcript_name :: "string \<Rightarrow> string" where
  "transcript_name vid = vid @ ''_transcript.txt''"

definition metadata_name :: "string \<Rightarrow> string" where
  "metadata_name vid = vid @ ''_metadata.json''"

definition summary_name :: "string \<Rightarrow> string" where
  "summary_name vid = vid @ ''.json''"

subsection \<open>Utilities\<close>

definition extract_video_id :: "env \<Rightarrow> string \<Rightarrow> exn + string" where
  "extract_video_id e url =
     (if url = [] then Inl (ValueError (''Invalid YouTube URL: '' @ url))
      else if py_in ''youtu.be/'' url then
        (case split_second ''youtu.be/'' url of
           Some part \<Rightarrow> Inr (split_first ''?'' part)
         | None \<Rightarrow> Inl (OtherException ''list index out of range''))
      else
        (case query_v e url of
           None \<Rightarrow> Inl (ValueError (''Could not extract video ID from URL: '' @ url))
         | Some video_id \<Rightarrow>
             if video_id = [] then Inl (ValueError (''Could not extract video ID from URL: '' @ url))
             else Inr video_id))"

definition is_video_downloaded :: "string \<Rightarrow> world \<Rightarrow> string option \<times> world" where
  \<comment> \<open>the first directory of the walk that holds the media file; \<open>None\<close> is the empty string
      the source returns when there is none\<close>
  "is_video_downloaded video_id w =
     (case find (\<lambda>root. file_exists w root (media_name video_id)) (dirs w) of
        Some root \<Rightarrow> (Some root, log_add Info (''Found existing video '' @ video_id @ '' in '' @ root) w)
      | None \<Rightarrow> (None, w))"

definition download_video :: "env \<Rightarrow> string \<Rightarrow> string \<Rightarrow> world \<Rightarrow> (exn + string) \<times> world" where
  "download_video e video_id folder w =
     (let w1 = call_add YtDlpVersion (call_add (Stage Download) w)
      in if \<not> yt_dlp_installed e then
           (Inl (RuntimeError ''yt-dlp is not installed or not available in PATH''),
            log_add Error ''yt-dlp not found. Please install it with: pip install yt-dlp'' w1)
         else
           let w2 = makedirs folder w1;
               path = path_join folder (media_name video_id)
           in if file_exists w2 folder (media_name video_id) then
                (Inr path, log_add Info (''Video already exists at '' @ path) w2)
              else
                let w3 = call_add (YtDlp video_id folder)
                           (log_add Info (''Starting download for video '' @ video_id
                                            @ '' to folder '' @ folder) w2)
                in case yt_dlp e video_id folder of
                     DlOk content \<Rightarrow>
                       (Inr path,
                        log_add Info (''Download completed for '' @ video_id)
                          (log_add Info (''yt-dlp stderr for '' @ video_id)
                            (log_add Info (''yt-dlp stdout for '' @ video_id)
                              (write_file folder (media_name video_id) content w3))))
                   | DlFailed stderr \<Rightarrow>
                       (Inl (RuntimeError (''Failed to download video '' @ [CHR 0x27] @ video_id
                                             @ [CHR 0x27] @ '': '' @ py_strip stderr)),
                        log_add Error ''yt-dlp stdout''
                          (log_add Error (''yt-dlp stderr: '' @ stderr)
                            (log_add Error (''yt-dlp failed for '' @ video_id) w3))))"

definition transcript_line :: "int \<times> string \<Rightarrow> string" where
  \<comment> \<open>\<open>[HH:MM:SS] text\<close>, the time of day of \<open>utcfromtimestamp(start_seconds)\<close>\<close>
  "transcript_line entry =
     (let t = fst entry mod 86400
      in ''['' @ two_digits (t div 3600) @ '':'' @ two_digits (t mod 3600 div 60) @ '':''
           @ two_digits (t mod 60) @ ''] '' @ snd entry @ newline)"

definition download_transcript :: "env \<Rightarrow> string \<Rightarrow> string \<Rightarrow> world \<Rightarrow> string option \<times> world" where
  "download_transcript e video_id folder w =
     (let w1 = makedirs folder (call_add (Stage Transcript) w);
          path = path_join folder (transcript_name video_id)
      in if file_exists w1 folder (transcript_name video_id) then
           (Some path, log_add Info (''Transcript already exists at '' @ path) w1)
         else
           let w2 = call_add (GetTranscript video_id)
                      (log_add Info (''Downloading transcript for '' @ video_id) w1)
           in case get_transcript e video_id of
                TrEntries transcript \<Rightarrow>
                  (Some path,
                   log_add Info (''Transcript downloaded to '' @ path)
                     (write_file folder (transcript_name video_id)
                        (concat (map transcript_line transcript)) w2))
              | TrUnavailable m \<Rightarrow>
                  (None, log_add Warning (''No transcript available for '' @ video_id @ '': '' @ m) w2)
              | TrError m \<Rightarrow>
                  (None, log_add Error (''Error downloading transcript for '' @ video_id @ '': '' @ m) w2))"

definition fetch_metadata :: "env \<Rightarrow> string \<Rightarrow> string \<Rightarrow> world \<Rightarrow> (exn + string) \<times> world" where
  "fetch_metadata e video_id folder w =
     (let w1 = makedirs folder (call_add (Stage Metadata) w);
          path = path_join folder (metadata_name video_id)
      in if file_exists w1 folder (metadata_name video_id) then
           (Inr path, log_add Info (''Metadata already exists at '' @ path) w1)
         else
           let w2 = call_add (GetMetadata video_id)
                      (log_add Info (''Fetching metadata for '' @ video_id) w1)
           in case youtube_api e video_id of
                MdSnippet snippet \<Rightarrow>
                  (Inr path,
                   log_add Info (''Metadata saved to '' @ path)
                     (write_file folder (metadata_name video_id) snippet w2))
              | MdNoItems \<Rightarrow>
                  (Inl (ValueError (''No video data found for ID '' @ video_id)),
                   log_add Error (''Error fetching metadata for '' @ video_id @ '': ''
                                    @ ''No video data found for ID '' @ video_id) w2)
              | MdRequestError m \<Rightarrow>
                  (Inl (RuntimeError (''Failed to fetch video metadata: '' @ m)),
                   log_add Error (''API request failed for video '' @ video_id @ '': '' @ m) w2)
              | MdError m \<Rightarrow>
                  (Inl (OtherException m),
                   log_add Error (''Error fetching metadata for '' @ video_id @ '': '' @ m) w2))"

definition summary_failure :: "string \<Rightarrow> exn \<Rightarrow> world \<Rightarrow> (exn + string) \<times> world" where
  \<comment> \<open>the \<open>except Exception\<close> clause of \<open>generate_summary\<close>\<close>
  "summary_failure video_id ex w =
     (Inl (RuntimeError (''Failed to generate summary: '' @ exn_str ex)),
      log_add Error ''Traceback''
        (log_add Error (''Failed to generate summary for '' @ video_id @ '': '' @ exn_str ex) w))"

definition generate_summary :: "env \<Rightarrow> string \<Rightarrow> string \<Rightarrow> world \<Rightarrow> (exn + string) \<times> world" where
  "generate_summary e video_id folder w =
     (let w0 = call_add (Stage Summary) w;
          json_path = path_join folder (summary_name video_id)
      in if file_exists w0 folder (summary_name video_id) then
           (Inr json_path, log_add Info (''Summary already exists at '' @ json_path) w0)
         else
           let video_url = ''https://www.youtube.com/watch?v='' @ video_id
           in case files w0 (folder, metadata_name video_id) of
                None \<Rightarrow>
                  summary_failure video_id
                    (FileNotFoundError (''No such file or directory: ''
                                          @ path_join folder (metadata_name video_id))) w0
              | Some text \<Rightarrow>
                  (case json_reformat e text of
                     None \<Rightarrow> summary_failure video_id (OtherException ''JSONDecodeError'') w0
                   | Some metadata \<Rightarrow>
                       (case prompt_template e of
                          None \<Rightarrow>
                            summary_failure video_id (FileNotFoundError ''Prompt template not found'') w0
                        | Some render \<Rightarrow>
                            let prompt = render video_url metadata;
                                w1 = call_add (GenerateContent video_id)
                                       (log_add Info (''Calling Gemini API for video '' @ video_id) w0)
                            in case gemini e prompt video_url of
                                 GmError m \<Rightarrow> summary_failure video_id (OtherException m) w1
                               | GmStatus code body \<Rightarrow>
                                   summary_failure video_id
                                     (RuntimeError (''Gemini API returned status code '' @ code
                                                      @ '': '' @ body)) w1
                               | GmNoCandidates \<Rightarrow>
                                   summary_failure video_id
                                     (ValueError ''No candidates in Gemini API response'') w1
                               | GmText text \<Rightarrow>
                                   (Inr json_path,
                                    log_add Info (''Summary generated and saved to '' @ json_path)
                                      (write_file folder (summary_name video_id) text w1)))))"

definition ensure_failure :: "string \<Rightarrow> exn \<Rightarrow> world \<Rightarrow> (exn + string \<times> string) \<times> world" where
  \<comment> \<open>the \<open>except Exception\<close> clause of \<open>ensure_video_content\<close>\<close>
  "ensure_failure video_url ex w =
     (Inl (RuntimeError (''Failed to ensure video content: '' @ exn_str ex)),
      log_add Error ''Traceback''
        (log_add Error (''Exception in `ensure_video_content` for video URL '' @ video_url
                          @ '': '' @ exn_str ex) w))"

definition item_folder :: "env \<Rightarrow> string \<Rightarrow> string" where
  \<comment> \<open>\<open>os.path.join(OUTPUT_DIR, "videos", video_id)\<close>\<close>
  "item_folder e video_id = path_join (path_join (output_dir e) ''videos'') video_id"

definition acquire ::
  "env \<Rightarrow> string \<Rightarrow> string \<Rightarrow> string \<Rightarrow> world \<Rightarrow> (exn + string \<times> string) \<times> world" where
  \<comment> \<open>the four stages in the branch \<open>if not folder\<close> of \<open>ensure_video_content\<close>, once the
      folder is made\<close>
  "acquire e video_url video_id folder w =
     (case download_video e video_id folder
             (log_add Info (''Downloading video for '' @ video_id) w) of
        (Inl ex, w3) \<Rightarrow> ensure_failure video_url ex w3
      | (Inr video_path, w3) \<Rightarrow>
          (case download_transcript e video_id folder
                  (log_add Info (''Downloading transcript for '' @ video_id)
                     (log_add Info (''Video downloaded successfully to '' @ video_path) w3)) of
             (transcript_path, w4) \<Rightarrow>
               (case fetch_metadata e video_id folder
                       (log_add Info (''Fetching metadata for '' @ video_id)
                          (log_add Info (''Transcript downloaded: ''
                                           @ (case transcript_path of None \<Rightarrow> ''None'' | Some p \<Rightarrow> p))
                             w4)) of
                  (Inl ex, w5) \<Rightarrow> ensure_failure video_url ex w5
                | (Inr metadata_path, w5) \<Rightarrow>
                    (case generate_summary e video_id folder
                            (log_add Info (''Generating summary for '' @ video_id)
                               (log_add Info (''Metadata fetched: '' @ metadata_path) w5)) of
                       (Inl ex, w6) \<Rightarrow> ensure_failure video_url ex w6
                     | (Inr summary_path, w6) \<Rightarrow>
                         (Inr (video_id, folder),
                          log_add Info (''Summary generated at: '' @ summary_path) w6)))))"

definition ensure_video_content :: "env \<Rightarrow> string \<Rightarrow> world \<Rightarrow> (exn + string \<times> string) \<times> world" where
  "ensure_video_content e video_url w =
     (case extract_video_id e video_url of
        Inl ex \<Rightarrow> ensure_failure video_url ex w
      | Inr video_id \<Rightarrow>
          (case is_video_downloaded video_id
                  (log_add Info (''Extracted video ID: '' @ video_id @ '' from URL: '' @ video_url) w) of
             (Some folder, w1) \<Rightarrow>
               (Inr (video_id, folder), log_add Info ''Content already exists. Skipping download.'' w1)
           | (None, w1) \<Rightarrow>
               acquire e video_url video_id (item_folder e video_id)
                 (makedirs (item_folder e video_id)
                    (log_add Info (''Creating new folder for content: '' @ item_folder e video_id) w1))))"

subsection \<open>The tool \<open>summarize_youtube_video\<close>\<close>

datatype tool_reply = ToolOk string | ToolError string

definition summarize_failure :: "exn \<Rightarrow> world \<Rightarrow> tool_reply \<times> world" where
  "summarize_failure ex w =
     (ToolError (''Failed to summarize YouTube video: '' @ exn_str ex),
      log_add Error ''Traceback''
        (log_add Error (''Exception in `summarize_youtube_video`: '' @ exn_str ex) w))"

definition summarize_youtube_video :: "env \<Rightarrow> string \<Rightarrow> world \<Rightarrow> tool_reply \<times> world" where
  "summarize_youtube_video e youtube_url w =
     (case ensure_video_content e youtube_url
             (log_add Info (''Tool `summarize_youtube_video` received: '' @ youtube_url) w) of
        (Inl ex, w1) \<Rightarrow> summarize_failure ex w1
      | (Inr (video_id, folder), w1) \<Rightarrow>
          (case (if \<not> file_exists w1 folder (summary_name video_id)
                 then generate_summary e video_id folder
                        (log_add Warning (''Summary not found for '' @ video_id @ ''. Generating now.'') w1)
                 else (Inr (path_join folder (summary_name video_id)), w1)) of
             (Inl ex, w2) \<Rightarrow> summarize_failure ex w2
           | (Inr summary_path, w2) \<Rightarrow>
               (case files w2 (folder, summary_name video_id) of
                  None \<Rightarrow> summarize_failure (FileNotFoundError summary_path) w2
                | Some summary_content \<Rightarrow>
                    (ToolOk (''Summary of video '' @ video_id @ '':'' @ newline @ newline
                               @ summary_content), w2))))"

subsection \<open>The summary persistence of \<open>process_video\<close> (youtube_download_menudrive.py)\<close>

text \<open>
  The menu-driven pipeline writes its summary in the \<open>with open(json_path, "w")\<close> block of
  \<open>process_video\<close>: \<open>json.loads\<close> of the generated text and \<open>json.dump\<close> with
  \<open>indent=2\<close> when it parses, the raw text and a warning when \<open>JSONDecodeError\<close> is raised.
\<close>

definition persist_summary :: "env \<Rightarrow> string \<Rightarrow> string \<Rightarrow> string \<Rightarrow> world \<Rightarrow> world" where
  "persist_summary e video_id output_folder output_text w =
     (let json_path = path_join output_folder (summary_name video_id)
      in case json_reformat e output_text of
           Some parsed_json \<Rightarrow>
             log_add Info (''Output saved: '' @ json_path)
               (write_file output_folder (summary_name video_id) parsed_json w)
         | None \<Rightarrow>
             log_add Warning (''Fallback saved (invalid JSON): '' @ json_path)
               (write_file output_folder (summary_name video_id) output_text w))"

subsection \<open>Notions used to state the properties of the pipeline\<close>

definition slot_invariant :: "string \<Rightarrow> world \<Rightarrow> bool" where
  \<comment> \<open>in every directory, the summary of the item comes with its metadata and its media\<close>
  "slot_invariant vid w =
     (\<forall>d. files w (d, summary_name vid) \<noteq> None \<longrightarrow>
            files w (d, metadata_name vid) \<noteq> None \<and> files w (d, media_name vid) \<noteq> None)"

definition within :: "string \<Rightarrow> world \<Rightarrow> world \<Rightarrow> bool" where
  \<comment> \<open>from \<open>w\<close> to \<open>w'\<close> the walk is the same, no file is lost, and files change in \<open>folder\<close> only\<close>
  "within folder w w' =
     (dirs w' = dirs w
      \<and> (\<forall>d n. d \<noteq> folder \<longrightarrow> files w' (d, n) = files w (d, n))
      \<and> (\<forall>n. files w (folder, n) \<noteq> None \<longrightarrow> files w' (folder, n) \<noteq> None))"

definition entries_after :: "world \<Rightarrow> world \<Rightarrow> log_entry list" where
  \<comment> \<open>the log records added between \<open>w\<close> and \<open>w'\<close>\<close>
  "entries_after w w' = drop (length (log w)) (log w')"

definition sample_env :: env where
  \<comment> \<open>collaborators that all answer, the transcript being unavailable\<close>
  "sample_env =
     \<lparr>output_dir = ''/out'', query_v = (\<lambda>url. None), yt_dlp_installed = True,
      yt_dlp = (\<lambda>video_id folder. DlOk ''media''),
      get_transcript = (\<lambda>video_id. TrUnavailable ''Subtitles are disabled''),
      youtube_api = (\<lambda>video_id. MdSnippet ''{}''),
      json_reformat = (\<lambda>text. if text = ''{}'' then Some ''{}'' else None),
      prompt_template = Some (\<lambda>video_url video_metadata. video_url @ video_metadata),
      gemini = (\<lambda>prompt video_url. GmText ''plain words'')\<rparr>"

definition empty_world :: world where
  "empty_world = \<lparr>dirs = [''/out''], files = Map.empty, trace = [], log = []\<rparr>"

section \<open>Properties of the retrying client\<close>

lemma calls_made_retry_events: "calls_made (retry_events d a k) = k"
  by (induction d a k rule: retry_events.induct) (simp_all add: calls_made_def)

lemma waits_made_retry_events: "waits_made (retry_events d a k) = replicate (k - 1) (Sleep d)"
  by (induction d a k rule: retry_events.induct) (simp_all add: waits_made_def)

lemma calls_made_append: "calls_made (xs @ ys) = calls_made xs + calls_made ys"
  by (simp add: calls_made_def)

lemma connect_loop_retry:
  assumes "mcp_server_tools a = Inl e" "a < max_retries c"
  shows "\<exists>c'. connect_loop mcp_server_tools a c = connect_loop mcp_server_tools (a + 1) c'
           \<and> max_retries c' = max_retries c \<and> retry_delay c' = retry_delay c
           \<and> tools c' = tools c
           \<and> events c' = events c @ [Discover a, Sleep (retry_delay c)]"
  using assms
  apply (subst connect_loop.simps)
  apply (simp add: Let_def)
  apply (rule exI, rule conjI, rule refl)
  apply (simp add: clog_add_def event_add_def)
  done

lemma connect_loop_success:
  "nat (K - a) = j \<Longrightarrow> a \<le> K \<Longrightarrow> K \<le> max_retries c \<Longrightarrow>
   (\<forall>i. a \<le> i \<and> i < K \<longrightarrow> isl (f i)) \<Longrightarrow> f K = Inr ts \<Longrightarrow>
   fst (connect_loop f a c) = Inr (Some ts) \<and>
   events (snd (connect_loop f a c)) = events c @ retry_events (retry_delay c) a (Suc j) \<and>
   tools (snd (connect_loop f a c)) = Some ts"
proof (induction j arbitrary: a c)
  case 0
  then have "a = K" by simp
  with 0 show ?case
    by (subst (1 2 3) connect_loop.simps) (simp add: Let_def clog_add_def event_add_def)
next
  case (Suc j)
  then have lt: "a < K" by linarith
  with Suc.prems obtain e where e: "f a = Inl e"
    by (metis isl_def order_refl)
  have "a < max_retries c" using lt Suc.prems by linarith
  from connect_loop_retry [of f a e c, OF e this] obtain c' where
    step: "connect_loop f a c = connect_loop f (a + 1) c'" and
    mr: "max_retries c' = max_retries c" "retry_delay c' = retry_delay c" "tools c' = tools c"
        "events c' = events c @ [Discover a, Sleep (retry_delay c)]"
    by blast
  have "fst (connect_loop f (a + 1) c') = Inr (Some ts) \<and>
        events (snd (connect_loop f (a + 1) c')) = events c' @ retry_events (retry_delay c') (a + 1) (Suc j) \<and>
        tools (snd (connect_loop f (a + 1) c')) = Some ts"
    using Suc.prems lt by (intro Suc.IH) (auto simp: mr)
  then show ?case
    by (simp add: step mr)
qed

lemma connect_loop_exhausted:
  "nat (max_retries c - a) = j \<Longrightarrow> a \<le> max_retries c \<Longrightarrow>
   (\<forall>i. a \<le> i \<and> i \<le> max_retries c \<longrightarrow> isl (f i)) \<Longrightarrow>
   fst (connect_loop f a c) = Inl (projl (f (max_retries c))) \<and>
   events (snd (connect_loop f a c)) = events c @ retry_events (retry_delay c) a (Suc j) \<and>
   tools (snd (connect_loop f a c)) = tools c"
proof (induction j arbitrary: a c)
  case 0
  then have a: "a = max_retries c" by simp
  with 0 obtain e where e: "f a = Inl e"
    by (metis isl_def order_refl)
  show ?case using a e
    by (subst (1 2 3) connect_loop.simps) (simp add: Let_def clog_add_def event_add_def)
next
  case (Suc j)
  then have lt: "a < max_retries c" by linarith
  with Suc.prems obtain e where e: "f a = Inl e"
    by (metis isl_def order_refl)
  from connect_loop_retry [of f a e c, OF e lt] obtain c' where
    step: "connect_loop f a c = connect_loop f (a + 1) c'" and
    mr: "max_retries c' = max_retries c" "retry_delay c' = retry_delay c" "tools c' = tools c"
        "events c' = events c @ [Discover a, Sleep (retry_delay c)]"
    by blast
  have "fst (connect_loop f (a + 1) c') = Inl (projl (f (max_retries c'))) \<and>
        events (snd (connect_loop f (a + 1) c')) = events c' @ retry_events (retry_delay c') (a + 1) (Suc j) \<and>
        tools (snd (connect_loop f (a + 1) c')) = tools c'"
    using Suc.prems lt by (intro Suc.IH) (auto simp: mr)
  then show ?case
    by (simp add: step mr)
qed

lemma connect_without_attempts:
  "max_retries c < 1 \<Longrightarrow> connect mcp_server_tools c = (Inr None, c)"
  by (simp add: connect_def connect_loop.simps)

text \<open>
  Claim C3 (retry bound). Let \<open>n = max_retries\<close>. If the underlying discovery raises in
  attempts \<open>1 .. k - 1\<close> and returns \<open>ts\<close> in attempt \<open>k\<close> with \<open>1 \<le> k \<le> n\<close>, then
  \<open>connect\<close> returns \<open>ts\<close>, caches it, and its trace is exactly \<open>k\<close> underlying calls
  separated by \<open>k - 1\<close> waits of \<open>retry_delay\<close>: nothing follows the successful call. If
  \<open>n \<ge> 1\<close> and all attempts \<open>1 .. n\<close> raise, \<open>connect\<close> raises the exception of attempt
  \<open>n\<close> after exactly \<open>n\<close> underlying calls separated by \<open>n - 1\<close> waits of the same fixed
  \<open>retry_delay\<close>; the trace ends with the last call, so there is no wait after the final
  failure.
\<close>

theorem connect_retry_bound:
  "(1 \<le> k \<and> int k \<le> max_retries c \<and> (\<forall>i. 1 \<le> i \<and> i < int k \<longrightarrow> isl (mcp_server_tools i))
      \<and> mcp_server_tools (int k) = Inr ts
    \<longrightarrow> fst (connect mcp_server_tools c) = Inr (Some ts)
        \<and> tools (snd (connect mcp_server_tools c)) = Some ts
        \<and> events (snd (connect mcp_server_tools c)) = events c @ retry_events (retry_delay c) 1 k
        \<and> calls_made (events (snd (connect mcp_server_tools c))) = calls_made (events c) + k
        \<and> waits_made (retry_events (retry_delay c) 1 k) = replicate (k - 1) (Sleep (retry_delay c)))
   \<and> (1 \<le> max_retries c \<and> (\<forall>i. 1 \<le> i \<and> i \<le> max_retries c \<longrightarrow> isl (mcp_server_tools i))
    \<longrightarrow> fst (connect mcp_server_tools c) = Inl (projl (mcp_server_tools (max_retries c)))
        \<and> events (snd (connect mcp_server_tools c))
            = events c @ retry_events (retry_delay c) 1 (nat (max_retries c))
        \<and> calls_made (events (snd (connect mcp_server_tools c)))
            = calls_made (events c) + nat (max_retries c)
        \<and> waits_made (retry_events (retry_delay c) 1 (nat (max_retries c)))
            = replicate (nat (max_retries c) - 1) (Sleep (retry_delay c)))"
proof (intro conjI impI)
  assume h: "1 \<le> k \<and> int k \<le> max_retries c \<and> (\<forall>i. 1 \<le> i \<and> i < int k \<longrightarrow> isl (mcp_server_tools i))
      \<and> mcp_server_tools (int k) = Inr ts"
  then have j: "nat (int k - 1) = k - 1" "Suc (k - 1) = k" by auto
  have r: "fst (connect_loop mcp_server_tools 1 c) = Inr (Some ts) \<and>
     events (snd (connect_loop mcp_server_tools 1 c)) = events c @ retry_events (retry_delay c) 1 (Suc (k - 1)) \<and>
     tools (snd (connect_loop mcp_server_tools 1 c)) = Some ts"
    using h by (intro connect_loop_success [where K = "int k"]) auto
  show "fst (connect mcp_server_tools c) = Inr (Some ts)"
    and "tools (snd (connect mcp_server_tools c)) = Some ts"
    and "events (snd (connect mcp_server_tools c)) = events c @ retry_events (retry_delay c) 1 k"
    and "calls_made (events (snd (connect mcp_server_tools c))) = calls_made (events c) + k"
    using r j by (simp_all add: connect_def calls_made_append calls_made_retry_events)
  show "waits_made (retry_events (retry_delay c) 1 k) = replicate (k - 1) (Sleep (retry_delay c))"
    by (rule waits_made_retry_events)
next
  assume h: "1 \<le> max_retries c \<and> (\<forall>i. 1 \<le> i \<and> i \<le> max_retries c \<longrightarrow> isl (mcp_server_tools i))"
  then have j: "Suc (nat (max_retries c - 1)) = nat (max_retries c)" by auto
  have r: "fst (connect_loop mcp_server_tools 1 c) = Inl (projl (mcp_server_tools (max_retries c))) \<and>
     events (snd (connect_loop mcp_server_tools 1 c))
       = events c @ retry_events (retry_delay c) 1 (Suc (nat (max_retries c - 1))) \<and>
     tools (snd (connect_loop mcp_server_tools 1 c)) = tools c"
    using h by (intro connect_loop_exhausted) auto
  show "fst (connect mcp_server_tools c) = Inl (projl (mcp_server_tools (max_retries c)))"
    and "events (snd (connect mcp_server_tools c))
            = events c @ retry_events (retry_delay c) 1 (nat (max_retries c))"
    and "calls_made (events (snd (connect mcp_server_tools c)))
            = calls_made (events c) + nat (max_retries c)"
    using r j by (simp_all add: connect_def calls_made_append calls_made_retry_events)
  show "waits_made (retry_events (retry_delay c) 1 (nat (max_retries c)))
            = replicate (nat (max_retries c) - 1) (Sleep (retry_delay c))"
    by (rule waits_made_retry_events)
qed

theorem connect_retry_bound_witness:
  "fst (connect (\<lambda>i. if i < 3 then Inl (OtherException ''boom'') else Inr [''tool''])
          (client_init 3 ''2.0''))
     = Inr (Some [''tool''])
   \<and> events (snd (connect (\<lambda>i. if i < 3 then Inl (OtherException ''boom'') else Inr [''tool''])
          (client_init 3 ''2.0'')))
     = [Discover 1, Sleep ''2.0'', Discover 2, Sleep ''2.0'', Discover 3]
   \<and> fst (connect (\<lambda>i. Inl (OtherException ''boom'') :: exn + string list) (client_init 3 ''2.0''))
     = Inl (OtherException ''boom'')
   \<and> events (snd (connect (\<lambda>i. Inl (OtherException ''boom'') :: exn + string list)
          (client_init 3 ''2.0'')))
     = [Discover 1, Sleep ''2.0'', Discover 2, Sleep ''2.0'', Discover 3]"
  using connect_retry_bound [of 3 "client_init 3 ''2.0''"
          "\<lambda>i. if i < 3 then Inl (OtherException ''boom'') else Inr [''tool'']" "[''tool'']"]
        connect_retry_bound [of 3 "client_init 3 ''2.0''"
          "\<lambda>i. Inl (OtherException ''boom'') :: exn + string list" "[]"]
  by (simp add: client_init_def numeral_3_eq_3)

lemma connect_loop_caches_result:
  "connect_loop f a c = (Inr (Some ts), c') \<Longrightarrow> tools c' = Some ts"
proof (induction f a c rule: connect_loop.induct)
  case (1 f a c)
  show ?case
  proof (cases "f a")
    case (Inr ts')
    with "1.prems" show ?thesis
      by (subst (asm) connect_loop.simps) (auto simp: Let_def clog_add_def split: if_splits)
  next
    case (Inl e)
    show ?thesis
    proof (cases "a < max_retries c")
      case True
      with Inl "1.prems" "1.IH" show ?thesis
        by (subst (asm) connect_loop.simps) (simp add: Let_def split: if_splits)
    next
      case False
      with Inl "1.prems" show ?thesis
        by (subst (asm) connect_loop.simps) (simp add: Let_def split: if_splits)
    qed
  qed
qed

text \<open>
  Claim C10. When \<open>connect\<close> succeeds with an empty tool list, the list is cached, and a
  following \<open>get_tools\<close> raises the not-connected error although the connection was
  established: the guard tests the truthiness of the cached list.
\<close>

theorem get_tools_after_empty_connect:
  "fst (connect mcp_server_tools c) = Inr (Some []) \<Longrightarrow>
   tools (snd (connect mcp_server_tools c)) = Some []
   \<and> get_tools (snd (connect mcp_server_tools c))
       = Inl (RuntimeError ''Not connected to MCP server. Call connect() first.'')"
proof -
  assume ok: "fst (connect mcp_server_tools c) = Inr (Some [])"
  then have "connect_loop mcp_server_tools 1 c = (Inr (Some []), snd (connect mcp_server_tools c))"
    by (simp add: connect_def prod_eq_iff)
  then have "tools (snd (connect mcp_server_tools c)) = Some []"
    by (rule connect_loop_caches_result)
  then show ?thesis
    by (simp add: get_tools_def)
qed

theorem get_tools_after_empty_connect_witness:
  "fst (connect (\<lambda>i. Inr [] :: exn + string list) (client_init 3 ''2.0'')) = Inr (Some [])
   \<and> get_tools (snd (connect (\<lambda>i. Inr [] :: exn + string list) (client_init 3 ''2.0'')))
       = Inl (RuntimeError ''Not connected to MCP server. Call connect() first.'')"
proof -
  have ok: "fst (connect (\<lambda>i. Inr [] :: exn + string list) (client_init 3 ''2.0'')) = Inr (Some [])"
    by (simp add: connect_def connect_loop.simps client_init_def Let_def clog_add_def event_add_def)
  from get_tools_after_empty_connect [OF ok] ok show ?thesis by simp
qed

section \<open>Properties of the event logger\<close>

lemma clean_result_eq_flatten_amended: "clean_result p = flatten_amended p"
proof (induction p rule: clean_result.induct)
  case (1 kvs)
  show ?case
  proof (cases "map_of kvs ''content''")
    case None
    then show ?thesis by simp
  next
    case (Some c)
    show ?thesis
    proof (cases c)
      case (PList items)
      have "map clean_result items = map flatten_amended items"
        by (rule map_cong [OF refl]) (rule 1 [OF Some PList])
      with Some PList show ?thesis by (simp del: map_eq_conv)
    qed (use Some in simp_all)
  qed
next
  case (2 items)
  have "map clean_result items = map flatten_amended items"
    by (rule map_cong [OF refl]) (rule 2)
  then show ?case by (simp del: map_eq_conv)
qed simp_all

text \<open>
  Claim C5, as stated, fails: read in order, its rules send a mapping whose \<open>content\<close> is
  itself a mapping past the "scalar \<open>content\<close>" rule to the \<open>text\<close> rule, while
  \<open>clean_result\<close> stringifies every \<open>content\<close> that is not a list. For the payload
  \<open>{"content": {"k": 1}, "text": "t"}\<close> the code returns \<open>{'k': 1}\<close> and the rules as
  stated give \<open>t\<close>.
\<close>

theorem clean_result_scalar_rule_counterexample:
  "clean_result (PDict [(''content'', PDict [(''k'', PInt 1)]), (''text'', PStr ''t'')])
     = ''{'' @ [CHR 0x27] @ ''k'' @ [CHR 0x27] @ '': 1}''
   \<and> flatten_spec (PDict [(''content'', PDict [(''k'', PInt 1)]), (''text'', PStr ''t'')]) = ''t''
   \<and> clean_result (PDict [(''content'', PDict [(''k'', PInt 1)]), (''text'', PStr ''t'')])
     \<noteq> flatten_spec (PDict [(''content'', PDict [(''k'', PInt 1)]), (''text'', PStr ''t'')])"
  by code_simp

text \<open>
  Claim C5, amended. For every payload \<open>clean_result\<close> applies the flattening rules in
  order, the second rule being "a mapping with a \<open>content\<close> that is not a sequence (a scalar
  or a mapping): stringify it"; and the payload
  \<open>{"content": [{"text": "a"}, {"text": "b"}]}\<close> yields \<open>a\<close>, a newline, \<open>b\<close>.
\<close>

theorem clean_result_flattening_rules:
  "(\<forall>p. clean_result p = flatten_amended p)
   \<and> clean_result (PDict [(''content'', PList [PDict [(''text'', PStr ''a'')],
                                                  PDict [(''text'', PStr ''b'')]])])
       = ''a'' @ newline @ ''b''"
proof
  show "\<forall>p. clean_result p = flatten_amended p"
    by (simp add: clean_result_eq_flatten_amended)
  show "clean_result (PDict [(''content'', PList [PDict [(''text'', PStr ''a'')],
                                                  PDict [(''text'', PStr ''b'')]])])
       = ''a'' @ newline @ ''b''"
    by code_simp
qed

theorem clean_result_flattening_rules_witness:
  "clean_result (PDict [(''content'', PStr ''  x '')]) = flatten_amended (PDict [(''content'', PStr ''  x '')])
   \<and> clean_result (PDict [(''content'', PStr ''  x '')]) = ''  x ''
   \<and> clean_result (PList [PStr ''  x '', PInt 7]) = ''x'' @ newline @ ''7''"
proof -
  have "clean_result (PDict [(''content'', PStr ''  x '')]) = ''  x ''"
    and "clean_result (PList [PStr ''  x '', PInt 7]) = ''x'' @ newline @ ''7''"
    by code_simp+
  with clean_result_flattening_rules show ?thesis by simp
qed

lemma log_event_suppressed:
  "is_tool_result ev \<Longrightarrow> last_tool_result st = Some (clean_text jl ev) \<Longrightarrow>
   log_event jl lg ev p st = st"
  by (auto simp: log_event_def is_tool_result_def Let_def)

lemma log_event_emitted:
  "is_tool_result ev \<Longrightarrow> last_tool_result st \<noteq> Some (clean_text jl ev) \<Longrightarrow>
   log_event jl lg ev p st =
     st\<lparr>last_tool_result := Some (clean_text jl ev),
        console := console st @ (if p then [newline @ marker_of (kind_of ev) @ '' '' @ clean_text jl ev] else []),
        logged := logged st @ [(lg, marker_of (kind_of ev) @ '' '' @ clean_text jl ev)]\<rparr>"
  by (auto simp: log_event_def is_tool_result_def emit_def marker_of_def Let_def)

lemma log_event_other_slot:
  "\<not> is_tool_result ev \<Longrightarrow> last_tool_result (log_event jl lg ev p st) = last_tool_result st"
  by (cases "kind_of ev") (simp_all add: log_event_def is_tool_result_def emit_def Let_def)

lemma log_event_tool_slot:
  "is_tool_result ev \<Longrightarrow> last_tool_result (log_event jl lg ev p st) = Some (clean_text jl ev)"
  by (cases "last_tool_result st = Some (clean_text jl ev)")
     (simp_all add: log_event_suppressed log_event_emitted)

lemma log_events_snoc:
  "log_events jl (calls @ [(lg, ev)]) st = log_event jl lg ev True (log_events jl calls st)"
  by (simp add: log_events_def)

lemma last_tool_text_snoc_tool:
  assumes "is_tool_result ev"
  shows "last_tool_text jl (calls @ [(lg, ev)]) = Some (clean_text jl ev)"
proof -
  have "(case xs @ [(lg, ev)] of [] \<Rightarrow> None
         | c # cs \<Rightarrow> Some (clean_text jl (snd (last (c # cs))))) = Some (clean_text jl ev)"
    for xs :: "(string \<times> event) list"
    by (cases xs) simp_all
  with assms show ?thesis
    by (simp add: last_tool_text_def)
qed

lemma last_tool_text_snoc_other:
  "\<not> is_tool_result ev \<Longrightarrow> last_tool_text jl (calls @ [(lg, ev)]) = last_tool_text jl calls"
  by (simp add: last_tool_text_def)

lemma log_events_slot:
  "last_tool_result (log_events jl calls st) =
     (case last_tool_text jl calls of None \<Rightarrow> last_tool_result st | Some t \<Rightarrow> Some t)"
proof (induction calls rule: rev_induct)
  case Nil
  show ?case by (simp add: log_events_def last_tool_text_def)
next
  case (snoc c calls)
  obtain lg ev where c: "c = (lg, ev)" by (cases c)
  show ?case
  proof (cases "is_tool_result ev")
    case True
    then show ?thesis
      by (simp add: c log_events_snoc log_event_tool_slot last_tool_text_snoc_tool)
  next
    case False
    then show ?thesis
      using snoc.IH by (simp add: c log_events_snoc log_event_other_slot last_tool_text_snoc_other)
  qed
qed

lemma log_event_suppressed_iff:
  assumes "is_tool_result ev"
  shows "log_event jl lg ev p st = st \<longleftrightarrow> last_tool_result st = Some (clean_text jl ev)"
proof
  assume same: "log_event jl lg ev p st = st"
  show "last_tool_result st = Some (clean_text jl ev)"
  proof (rule ccontr)
    assume "last_tool_result st \<noteq> Some (clean_text jl ev)"
    with assms have "length (logged (log_event jl lg ev p st)) = Suc (length (logged st))"
      by (simp add: log_event_emitted)
    with same show False by simp
  qed
next
  assume "last_tool_result st = Some (clean_text jl ev)"
  with assms show "log_event jl lg ev p st = st"
    by (rule log_event_suppressed)
qed

text \<open>
  Claim C4 (deduplication of tool results). Let \<open>ev\<close> be classified as
  \<open>ToolCallExecuted\<close> or \<open>ToolCallSummary\<close>. Both kinds are compared with the one slot
  \<open>last_tool_result\<close>. If the clean text equals the slot, the call changes nothing: no console
  line, no log line, the slot as before. Otherwise the slot takes the clean text and the message
  is printed (when \<open>print_to_console\<close> is set) and logged with the marker of its kind, the two
  markers being different. Hence a second tool result with the same clean text right after
  \<open>ev\<close>, of either kind, is always suppressed, and two consecutive \<open>ToolCallExecuted\<close>
  events with the same clean text, met with a slot that does not hold that text yet, produce
  exactly one console line and one log line.
\<close>

theorem tool_result_dedup:
  assumes "is_tool_result ev"
  shows "(last_tool_result st = Some (clean_text jl ev) \<longrightarrow> log_event jl lg ev p st = st)
    \<and> (last_tool_result st \<noteq> Some (clean_text jl ev) \<longrightarrow>
         log_event jl lg ev p st =
           st\<lparr>last_tool_result := Some (clean_text jl ev),
              console := console st @
                (if p then [newline @ marker_of (kind_of ev) @ '' '' @ clean_text jl ev] else []),
              logged := logged st @ [(lg, marker_of (kind_of ev) @ '' '' @ clean_text jl ev)]\<rparr>)
    \<and> marker_of ToolCallExecuted \<noteq> marker_of ToolCallSummary
    \<and> (is_tool_result ev2 \<and> clean_text jl ev2 = clean_text jl ev \<longrightarrow>
         log_events jl [(lg, ev), (lg, ev2)] st = log_event jl lg ev True st)
    \<and> (kind_of ev = ToolCallExecuted \<and> kind_of ev2 = ToolCallExecuted
         \<and> clean_text jl ev2 = clean_text jl ev
         \<and> last_tool_result st \<noteq> Some (clean_text jl ev) \<longrightarrow>
         console (log_events jl [(lg, ev), (lg, ev2)] st)
           = console st @ [newline @ satellite_marker @ '' '' @ clean_text jl ev]
         \<and> logged (log_events jl [(lg, ev), (lg, ev2)] st)
           = logged st @ [(lg, satellite_marker @ '' '' @ clean_text jl ev)])"
proof -
  have second: "log_events jl [(lg, ev), (lg, ev2)] st = log_event jl lg ev True st"
    if "is_tool_result ev2" "clean_text jl ev2 = clean_text jl ev" for ev2
  proof -
    have "last_tool_result (log_event jl lg ev True st) = Some (clean_text jl ev2)"
      using assms that(2) by (simp add: log_event_tool_slot)
    with that(1) show ?thesis
      by (simp add: log_events_def log_event_suppressed)
  qed
  have markers: "marker_of ToolCallExecuted \<noteq> marker_of ToolCallSummary"
    by (simp add: marker_of_def satellite_marker_def check_marker_def)
  have pair: "console (log_events jl [(lg, ev), (lg, ev2)] st)
           = console st @ [newline @ satellite_marker @ '' '' @ clean_text jl ev]
         \<and> logged (log_events jl [(lg, ev), (lg, ev2)] st)
           = logged st @ [(lg, satellite_marker @ '' '' @ clean_text jl ev)]"
    if "kind_of ev = ToolCallExecuted" "kind_of ev2 = ToolCallExecuted"
       "clean_text jl ev2 = clean_text jl ev" "last_tool_result st \<noteq> Some (clean_text jl ev)"
  proof -
    have "is_tool_result ev2" using that(2) by (simp add: is_tool_result_def)
    then have "log_events jl [(lg, ev), (lg, ev2)] st = log_event jl lg ev True st"
      using that(3) by (rule second)
    then show ?thesis
      using assms that(1,4) by (simp add: log_event_emitted marker_of_def)
  qed
  show ?thesis
    using assms second markers pair
    by (simp add: log_event_suppressed log_event_emitted)
qed

theorem tool_result_dedup_witness:
  "is_tool_result \<lparr>ev_str = ''ToolCallExecutionEvent(x)'', ev_content = OtherContent\<rparr>
   \<and> console (log_events (\<lambda>s. None)
        [(''client_logger'', \<lparr>ev_str = ''ToolCallExecutionEvent(x)'', ev_content = OtherContent\<rparr>),
         (''client_logger'', \<lparr>ev_str = ''ToolCallExecutionEvent(x)'', ev_content = OtherContent\<rparr>)] logger_init)
       = [newline @ satellite_marker @ '' ToolCallExecutionEvent(x)'']
   \<and> logged (log_events (\<lambda>s. None)
        [(''client_logger'', \<lparr>ev_str = ''ToolCallExecutionEvent(x)'', ev_content = OtherContent\<rparr>),
         (''client_logger'', \<lparr>ev_str = ''ToolCallExecutionEvent(x)'', ev_content = OtherContent\<rparr>)] logger_init)
       = [(''client_logger'', satellite_marker @ '' ToolCallExecutionEvent(x)'')]
   \<and> log_event (\<lambda>s. None) ''client_logger'' \<lparr>ev_str = ''ToolCallExecutionEvent(x)'', ev_content = OtherContent\<rparr> True
        (logger_init\<lparr>last_tool_result := Some ''ToolCallExecutionEvent(x)''\<rparr>)
       = logger_init\<lparr>last_tool_result := Some ''ToolCallExecutionEvent(x)''\<rparr>"
proof -
  let ?ev = "\<lparr>ev_str = ''ToolCallExecutionEvent(x)'', ev_content = OtherContent\<rparr>"
  have tool: "is_tool_result ?ev"
    by code_simp
  have kind: "kind_of ?ev = ToolCallExecuted"
    by code_simp
  have clean: "clean_text (\<lambda>s. None) ?ev = ''ToolCallExecutionEvent(x)''"
    by code_simp
  show ?thesis
    using tool kind clean
      tool_result_dedup [OF tool, of logger_init "\<lambda>s. None" "''client_logger''" True ?ev]
      tool_result_dedup [OF tool, of "logger_init\<lparr>last_tool_result := Some ''ToolCallExecutionEvent(x)''\<rparr>"
        "\<lambda>s. None" "''client_logger''" True ?ev]
    by (simp add: logger_init_def marker_of_def)
qed

text \<open>
  Claim C9, as stated, fails: \<open>log_event\<close> keeps the slot as an attribute of the function
  itself, so every stream handled in the process shares it. Stream \<open>B\<close> alone logs its tool
  result; after stream \<open>A\<close> has logged the same text, the event of \<open>B\<close> is suppressed.
\<close>

theorem stream_isolation_counterexample:
  "lines_of ''B'' (log_events (\<lambda>s. None) [(''B'', \<lparr>ev_str = ''ToolCallExecutionEvent(x)'', ev_content = OtherContent\<rparr>)] logger_init)
     = [satellite_marker @ '' ToolCallExecutionEvent(x)'']
   \<and> lines_of ''B'' (log_events (\<lambda>s. None)
        [(''A'', \<lparr>ev_str = ''ToolCallExecutionEvent(x)'', ev_content = OtherContent\<rparr>), (''B'', \<lparr>ev_str = ''ToolCallExecutionEvent(x)'', ev_content = OtherContent\<rparr>)] logger_init)
     = []"
  by code_simp

text \<open>
  Claim C9, amended. The dedup slot is one process-wide cell owned by \<open>log_event\<close> and
  shared by all streams handled in the process: after any sequence of calls, whatever their
  loggers, it holds the clean text of the most recent tool result of the whole sequence (or
  its former content when there was none), and the next tool result, of whichever stream, is
  suppressed exactly when its clean text equals that cell.
\<close>

theorem shared_dedup_cell:
  "last_tool_result (log_events jl calls st)
     = (case last_tool_text jl calls of None \<Rightarrow> last_tool_result st | Some t \<Rightarrow> Some t)
   \<and> (is_tool_result ev \<longrightarrow>
        (log_event jl lg ev p (log_events jl calls st) = log_events jl calls st
         \<longleftrightarrow> (case last_tool_text jl calls of None \<Rightarrow> last_tool_result st | Some t \<Rightarrow> Some t)
               = Some (clean_text jl ev)))"
proof (intro conjI impI)
  show "last_tool_result (log_events jl calls st)
     = (case last_tool_text jl calls of None \<Rightarrow> last_tool_result st | Some t \<Rightarrow> Some t)"
    by (rule log_events_slot)
next
  assume "is_tool_result ev"
  then have "log_event jl lg ev p (log_events jl calls st) = log_events jl calls st
      \<longleftrightarrow> last_tool_result (log_events jl calls st) = Some (clean_text jl ev)"
    by (rule log_event_suppressed_iff)
  then show "log_event jl lg ev p (log_events jl calls st) = log_events jl calls st
         \<longleftrightarrow> (case last_tool_text jl calls of None \<Rightarrow> last_tool_result st | Some t \<Rightarrow> Some t)
               = Some (clean_text jl ev)"
    by (simp only: log_events_slot)
qed

theorem shared_dedup_cell_witness:
  "is_tool_result \<lparr>ev_str = ''ToolCallExecutionEvent(x)'', ev_content = OtherContent\<rparr>
   \<and> last_tool_result (log_events (\<lambda>s. None) [(''A'', \<lparr>ev_str = ''ToolCallExecutionEvent(x)'', ev_content = OtherContent\<rparr>)] logger_init)
       = Some ''ToolCallExecutionEvent(x)''
   \<and> log_event (\<lambda>s. None) ''B'' \<lparr>ev_str = ''ToolCallExecutionEvent(x)'', ev_content = OtherContent\<rparr> True
        (log_events (\<lambda>s. None) [(''A'', \<lparr>ev_str = ''ToolCallExecutionEvent(x)'', ev_content = OtherContent\<rparr>)] logger_init)
       = log_events (\<lambda>s. None) [(''A'', \<lparr>ev_str = ''ToolCallExecutionEvent(x)'', ev_content = OtherContent\<rparr>)] logger_init"
proof -
  let ?ev = "\<lparr>ev_str = ''ToolCallExecutionEvent(x)'', ev_content = OtherContent\<rparr>"
  have tool: "is_tool_result ?ev"
    by code_simp
  have clean: "clean_text (\<lambda>s. None) ?ev = ''ToolCallExecutionEvent(x)''"
    by code_simp
  have last: "last_tool_text (\<lambda>s. None) [(''A'', ?ev)] = Some ''ToolCallExecutionEvent(x)''"
    using tool clean by (simp add: last_tool_text_def)
  show ?thesis
    using tool clean last
      shared_dedup_cell [of "\<lambda>s. None" "[(''A'', ?ev)]" logger_init ?ev "''B''" True]
    by simp
qed

section \<open>Properties of the acquisition pipeline\<close>


lemma log_add_fields [simp]:
  "files (log_add l m w) = files w" "dirs (log_add l m w) = dirs w"
  "trace (log_add l m w) = trace w" "log (log_add l m w) = log w @ [(l, m)]"
  by (simp_all add: log_add_def)

lemma call_add_fields [simp]:
  "files (call_add c w) = files w" "dirs (call_add c w) = dirs w"
  "trace (call_add c w) = trace w @ [c]" "log (call_add c w) = log w"
  by (simp_all add: call_add_def)

lemma makedirs_fields [simp]:
  "files (makedirs f w) = files w" "trace (makedirs f w) = trace w" "log (makedirs f w) = log w"
  "f \<in> set (dirs (makedirs f w))"
  "f \<in> set (dirs w) \<Longrightarrow> dirs (makedirs f w) = dirs w"
  by (simp_all add: makedirs_def)

lemma write_file_fields [simp]:
  "files (write_file f n c w) = (files w)((f, n) \<mapsto> c)" "dirs (write_file f n c w) = dirs w"
  "trace (write_file f n c w) = trace w" "log (write_file f n c w) = log w"
  by (simp_all add: write_file_def)

lemma artifact_names_distinct [simp]:
  "summary_name v \<noteq> media_name v" "summary_name v \<noteq> metadata_name v"
  "summary_name v \<noteq> transcript_name v" "media_name v \<noteq> metadata_name v"
  "media_name v \<noteq> transcript_name v" "metadata_name v \<noteq> transcript_name v"
  "media_name v \<noteq> summary_name v" "metadata_name v \<noteq> summary_name v"
  "transcript_name v \<noteq> summary_name v" "metadata_name v \<noteq> media_name v"
  "transcript_name v \<noteq> media_name v" "transcript_name v \<noteq> metadata_name v"
  by (simp_all add: summary_name_def media_name_def metadata_name_def transcript_name_def)

lemma within_refl [simp]: "within f w w"
  by (simp add: within_def)

lemma within_trans: "within f w w' \<Longrightarrow> within f w' w'' \<Longrightarrow> within f w w''"
  by (simp add: within_def)

lemma within_log_add [simp]:
  "within f (log_add l m w) w' = within f w w'" "within f w (log_add l m w') = within f w w'"
  by (simp_all add: within_def)

lemma download_video_within:
  "f \<in> set (dirs w) \<Longrightarrow> download_video e v f w = (r, w') \<Longrightarrow> within f w w'"
  by (auto simp: download_video_def Let_def within_def file_exists_def split: if_splits ytdlp_reply.splits)

lemma download_video_stores:
  "download_video e v f w = (Inr p, w') \<Longrightarrow> files w' (f, media_name v) \<noteq> None"
  by (auto simp: download_video_def Let_def file_exists_def split: if_splits ytdlp_reply.splits)

lemma download_transcript_within:
  "f \<in> set (dirs w) \<Longrightarrow> download_transcript e v f w = (r, w') \<Longrightarrow> within f w w'"
  by (auto simp: download_transcript_def Let_def within_def file_exists_def split: if_splits transcript_reply.splits)

lemma fetch_metadata_within:
  "f \<in> set (dirs w) \<Longrightarrow> fetch_metadata e v f w = (r, w') \<Longrightarrow> within f w w'"
  by (auto simp: fetch_metadata_def Let_def within_def file_exists_def split: if_splits metadata_reply.splits)

lemma generate_summary_within:
  "generate_summary e v f w = (r, w') \<Longrightarrow> within f w w'"
  by (auto simp: generate_summary_def Let_def within_def file_exists_def summary_failure_def
           split: if_splits option.splits gemini_reply.splits)



lemma find_unique:
  "x \<in> set xs \<Longrightarrow> P x \<Longrightarrow> (\<forall>y \<in> set xs. y \<noteq> x \<longrightarrow> \<not> P y) \<Longrightarrow> find P xs = Some x"
  by (induction xs) auto

lemma find_SomeD: "find P xs = Some x \<Longrightarrow> x \<in> set xs \<and> P x"
  by (induction xs) (simp_all split: if_splits)

lemma find_NoneD: "find P xs = None \<Longrightarrow> x \<in> set xs \<Longrightarrow> \<not> P x"
  by (induction xs) (auto split: if_splits)

lemma is_video_downloaded_fst:
  "fst (is_video_downloaded v w) = find (\<lambda>root. files w (root, media_name v) \<noteq> None) (dirs w)"
  by (simp add: is_video_downloaded_def file_exists_def split: option.splits)

lemma is_video_downloaded_snd:
  "files (snd (is_video_downloaded v w)) = files w"
  "dirs (snd (is_video_downloaded v w)) = dirs w"
  "trace (snd (is_video_downloaded v w)) = trace w"
  by (simp_all add: is_video_downloaded_def split: option.splits)

lemma is_video_downloaded_Some:
  "fst (is_video_downloaded v w) = Some f \<Longrightarrow> f \<in> set (dirs w) \<and> files w (f, media_name v) \<noteq> None"
proof -
  assume "fst (is_video_downloaded v w) = Some f"
  then have "find (\<lambda>root. files w (root, media_name v) \<noteq> None) (dirs w) = Some f"
    by (simp only: is_video_downloaded_fst)
  from find_SomeD [OF this] show ?thesis .
qed

lemma is_video_downloaded_None:
  "fst (is_video_downloaded v w) = None \<Longrightarrow> d \<in> set (dirs w) \<Longrightarrow> files w (d, media_name v) = None"
proof -
  assume "fst (is_video_downloaded v w) = None" and d: "d \<in> set (dirs w)"
  then have "find (\<lambda>root. files w (root, media_name v) \<noteq> None) (dirs w) = None"
    by (simp only: is_video_downloaded_fst)
  from find_NoneD [OF this d] show ?thesis by simp
qed

lemma is_video_downloaded_log_add:
  "fst (is_video_downloaded v w) = r \<Longrightarrow>
   is_video_downloaded v (log_add l m w) =
     (r, case r of None \<Rightarrow> log_add l m w
         | Some root \<Rightarrow> log_add Info (''Found existing video '' @ v @ '' in '' @ root) (log_add l m w))"
  by (auto simp: is_video_downloaded_def file_exists_def split: option.splits)

lemma ensure_located:
  assumes "extract_video_id e url = Inr v" "fst (is_video_downloaded v w) = Some f"
  shows "fst (ensure_video_content e url w) = Inr (v, f)"
    and "trace (snd (ensure_video_content e url w)) = trace w"
    and "files (snd (ensure_video_content e url w)) = files w"
    and "dirs (snd (ensure_video_content e url w)) = dirs w"
  using assms(1) is_video_downloaded_log_add [OF assms(2)]
  by (simp_all add: ensure_video_content_def)


lemma acquire_within:
  assumes "f \<in> set (dirs w)" "acquire e url v f w = (r, w')"
  shows "within f w w'"
    and "r = Inr x \<Longrightarrow> x = (v, f) \<and> files w' (f, media_name v) \<noteq> None"
proof -
  obtain r1 w3 where dl: "download_video e v f (log_add Info (''Downloading video for '' @ v) w) = (r1, w3)"
    by (cases "download_video e v f (log_add Info (''Downloading video for '' @ v) w)")
  have w3: "within f w w3"
    using download_video_within [OF _ dl] assms(1) by simp
  show "within f w w'"
    and "r = Inr x \<Longrightarrow> x = (v, f) \<and> files w' (f, media_name v) \<noteq> None"
  proof (atomize (full), cases r1)
    case (Inl ex)
    with assms(2) dl w3 show "within f w w' \<and> (r = Inr x \<longrightarrow> x = (v, f) \<and> files w' (f, media_name v) \<noteq> None)"
      by (auto simp: acquire_def ensure_failure_def)
  next
    case (Inr p)
    have media3: "files w3 (f, media_name v) \<noteq> None"
      using dl Inr by (auto dest: download_video_stores)
    have d3: "f \<in> set (dirs w3)" using w3 assms(1) by (simp add: within_def)
    obtain r2 w4 where tr: "download_transcript e v f
        (log_add Info (''Downloading transcript for '' @ v)
           (log_add Info (''Video downloaded successfully to '' @ p) w3)) = (r2, w4)"
      by (cases "download_transcript e v f
        (log_add Info (''Downloading transcript for '' @ v)
           (log_add Info (''Video downloaded successfully to '' @ p) w3))")
    have w34: "within f w3 w4"
      using download_transcript_within [OF _ tr] d3 by simp
    have d4: "f \<in> set (dirs w4)" using w34 d3 by (simp add: within_def)
    obtain r3 w5 where md: "fetch_metadata e v f
        (log_add Info (''Fetching metadata for '' @ v)
           (log_add Info (''Transcript downloaded: ''
                            @ (case r2 of None \<Rightarrow> ''None'' | Some p \<Rightarrow> p)) w4)) = (r3, w5)"
      by (cases "fetch_metadata e v f
        (log_add Info (''Fetching metadata for '' @ v)
           (log_add Info (''Transcript downloaded: ''
                            @ (case r2 of None \<Rightarrow> ''None'' | Some p \<Rightarrow> p)) w4))")
    have w45: "within f w4 w5"
      using fetch_metadata_within [OF _ md] d4 by simp
    have w5: "within f w w5"
      using w3 w34 w45 by (blast intro: within_trans)
    have media5: "files w5 (f, media_name v) \<noteq> None"
      using media3 w34 w45 by (simp add: within_def)
    show "within f w w' \<and> (r = Inr x \<longrightarrow> x = (v, f) \<and> files w' (f, media_name v) \<noteq> None)"
    proof (cases r3)
      case (Inl ex)
      with assms(2) dl Inr tr md w5 show ?thesis
        by (auto simp: acquire_def ensure_failure_def)
    next
      case r3: (Inr mp)
      obtain r4 w6 where gs: "generate_summary e v f
          (log_add Info (''Generating summary for '' @ v)
             (log_add Info (''Metadata fetched: '' @ mp) w5)) = (r4, w6)"
        by (cases "generate_summary e v f
          (log_add Info (''Generating summary for '' @ v)
             (log_add Info (''Metadata fetched: '' @ mp) w5))")
      have w56: "within f w5 w6"
        using generate_summary_within [OF gs] by simp
      have w6: "within f w w6" using w5 w56 by (rule within_trans)
      have media6: "files w6 (f, media_name v) \<noteq> None"
        using media5 w56 by (simp add: within_def)
      from assms(2) dl Inr tr md r3 gs w6 media6 show ?thesis
        by (cases r4) (auto simp: acquire_def ensure_failure_def)
    qed
  qed
qed

lemma ensure_not_located:
  assumes "extract_video_id e url = Inr v" "fst (is_video_downloaded v w) = None"
  shows "ensure_video_content e url w =
           acquire e url v (item_folder e v)
             (makedirs (item_folder e v)
               (log_add Info (''Creating new folder for content: '' @ item_folder e v)
                 (log_add Info (''Extracted video ID: '' @ v @ '' from URL: '' @ url) w)))"
  using assms(1) is_video_downloaded_log_add [OF assms(2)]
  by (simp add: ensure_video_content_def)

lemma ensure_ok_located:
  assumes "ensure_video_content e url w = (Inr (v, f), w')"
  shows "extract_video_id e url = Inr v" and "fst (is_video_downloaded v w') = Some f"
proof -
  obtain v0 where v0: "extract_video_id e url = Inr v0"
    using assms by (cases "extract_video_id e url") (auto simp: ensure_video_content_def ensure_failure_def)
  have both: "v0 = v \<and> fst (is_video_downloaded v w') = Some f"
  proof (cases "fst (is_video_downloaded v0 w)")
    case (Some f0)
    from ensure_located [OF v0 Some] assms
    have "v0 = v" "f0 = f" "files w' = files w" "dirs w' = dirs w" by simp_all
    with Some show ?thesis by (simp add: is_video_downloaded_fst)
  next
    case None
    let ?f = "item_folder e v0"
    let ?w2 = "makedirs ?f (log_add Info (''Creating new folder for content: '' @ ?f)
                 (log_add Info (''Extracted video ID: '' @ v0 @ '' from URL: '' @ url) w))"
    from ensure_not_located [OF v0 None] assms
    have acq: "acquire e url v0 ?f ?w2 = (Inr (v, f), w')" by simp
    have fin: "?f \<in> set (dirs ?w2)" by simp
    from acquire_within(1) [OF fin acq] have win: "within ?f ?w2 w'" .
    from acquire_within(2) [OF fin acq, of "(v, f)"]
    have eq: "v = v0" "f = ?f" and media: "files w' (?f, media_name v0) \<noteq> None" by simp_all
    have dirs: "dirs w' = dirs ?w2" using win by (simp add: within_def)
    have other: "files w' (d, media_name v0) = None" if "d \<in> set (dirs w')" "d \<noteq> ?f" for d
    proof -
      from that dirs have "d \<in> set (dirs w)" by (auto simp: makedirs_def split: if_splits)
      with None have "files w (d, media_name v0) = None" by (rule is_video_downloaded_None)
      moreover from win that(2) have "files w' (d, media_name v0) = files ?w2 (d, media_name v0)"
        by (simp add: within_def)
      ultimately show ?thesis by simp
    qed
    have "find (\<lambda>root. files w' (root, media_name v0) \<noteq> None) (dirs w') = Some ?f"
      using fin dirs media other by (intro find_unique) auto
    with eq show ?thesis by (simp add: is_video_downloaded_fst)
  qed
  with v0 show "extract_video_id e url = Inr v" and "fst (is_video_downloaded v w') = Some f"
    by simp_all
qed











text \<open>
  Claim C6 (optional transcript). Let the transcript collaborator answer "unavailable"
  (\<open>TranscriptsDisabled\<close> or \<open>NoTranscriptFound\<close>) for the item. Then
  \<open>download_transcript\<close> raises nothing: it returns \<open>None\<close>, writes no file, and logs a
  warning and no error. And the pipeline proceeds: in a run that finds no media artifact, with
  a download, a metadata fetch and a generation that succeed, the metadata and summary stages
  are invoked after the transcript stage, the run completes, the metadata and summary artifacts
  are stored and the transcript slot stays absent.
\<close>

theorem transcript_unavailable_tolerated:
  assumes "get_transcript e v = TrUnavailable m"
  shows "(\<not> file_exists w f (transcript_name v) \<longrightarrow>
            fst (download_transcript e v f w) = None
            \<and> files (snd (download_transcript e v f w)) = files w
            \<and> entries_after w (snd (download_transcript e v f w))
                = [(Info, ''Downloading transcript for '' @ v),
                   (Warning, ''No transcript available for '' @ v @ '': '' @ m)])
       \<and> (extract_video_id e url = Inr v \<and> fst (is_video_downloaded v w) = None
           \<and> (\<forall>n. files w (item_folder e v, n) = None)
           \<and> yt_dlp_installed e \<and> yt_dlp e v (item_folder e v) = DlOk c
           \<and> youtube_api e v = MdSnippet t \<and> json_reformat e t = Some j
           \<and> prompt_template e = Some render
           \<and> gemini e (render (''https://www.youtube.com/watch?v='' @ v) j)
                 (''https://www.youtube.com/watch?v='' @ v) = GmText s \<longrightarrow>
            fst (ensure_video_content e url w) = Inr (v, item_folder e v)
            \<and> trace (snd (ensure_video_content e url w))
                = trace w @ [Stage Download, YtDlpVersion, YtDlp v (item_folder e v),
                             Stage Transcript, GetTranscript v,
                             Stage Metadata, GetMetadata v,
                             Stage Summary, GenerateContent v]
            \<and> files (snd (ensure_video_content e url w)) (item_folder e v, transcript_name v) = None
            \<and> files (snd (ensure_video_content e url w)) (item_folder e v, metadata_name v) = Some t
            \<and> files (snd (ensure_video_content e url w)) (item_folder e v, summary_name v) = Some s
            \<and> (Warning, ''No transcript available for '' @ v @ '': '' @ m)
                  \<in> set (entries_after w (snd (ensure_video_content e url w)))
            \<and> Error \<notin> fst ` set (entries_after w (snd (ensure_video_content e url w))))"
proof (intro conjI impI)
  assume "\<not> file_exists w f (transcript_name v)"
  with assms show "fst (download_transcript e v f w) = None"
    and "files (snd (download_transcript e v f w)) = files w"
    and "entries_after w (snd (download_transcript e v f w))
                = [(Info, ''Downloading transcript for '' @ v),
                   (Warning, ''No transcript available for '' @ v @ '': '' @ m)]"
    by (simp_all add: download_transcript_def Let_def file_exists_def entries_after_def)
next
  assume h: "extract_video_id e url = Inr v \<and> fst (is_video_downloaded v w) = None
           \<and> (\<forall>n. files w (item_folder e v, n) = None)
           \<and> yt_dlp_installed e \<and> yt_dlp e v (item_folder e v) = DlOk c
           \<and> youtube_api e v = MdSnippet t \<and> json_reformat e t = Some j
           \<and> prompt_template e = Some render
           \<and> gemini e (render (''https://www.youtube.com/watch?v='' @ v) j)
                 (''https://www.youtube.com/watch?v='' @ v) = GmText s"
  then have eq: "ensure_video_content e url w =
           acquire e url v (item_folder e v)
             (makedirs (item_folder e v)
               (log_add Info (''Creating new folder for content: '' @ item_folder e v)
                 (log_add Info (''Extracted video ID: '' @ v @ '' from URL: '' @ url) w)))"
    by (simp add: ensure_not_located)
  have run: "fst (ensure_video_content e url w) = Inr (v, item_folder e v)
       \<and> trace (snd (ensure_video_content e url w))
                = trace w @ [Stage Download, YtDlpVersion, YtDlp v (item_folder e v),
                             Stage Transcript, GetTranscript v,
                             Stage Metadata, GetMetadata v,
                             Stage Summary, GenerateContent v]
       \<and> files (snd (ensure_video_content e url w)) (item_folder e v, transcript_name v) = None
       \<and> files (snd (ensure_video_content e url w)) (item_folder e v, metadata_name v) = Some t
       \<and> files (snd (ensure_video_content e url w)) (item_folder e v, summary_name v) = Some s
       \<and> (Warning, ''No transcript available for '' @ v @ '': '' @ m)
                  \<in> set (entries_after w (snd (ensure_video_content e url w)))
       \<and> Error \<notin> fst ` set (entries_after w (snd (ensure_video_content e url w)))"
    unfolding eq
    using h assms
    by (simp add: acquire_def download_video_def download_transcript_def fetch_metadata_def
          generate_summary_def Let_def file_exists_def entries_after_def)
  then show "fst (ensure_video_content e url w) = Inr (v, item_folder e v)"
    and "trace (snd (ensure_video_content e url w))
                = trace w @ [Stage Download, YtDlpVersion, YtDlp v (item_folder e v),
                             Stage Transcript, GetTranscript v,
                             Stage Metadata, GetMetadata v,
                             Stage Summary, GenerateContent v]"
    and "files (snd (ensure_video_content e url w)) (item_folder e v, transcript_name v) = None"
    and "files (snd (ensure_video_content e url w)) (item_folder e v, metadata_name v) = Some t"
    and "files (snd (ensure_video_content e url w)) (item_folder e v, summary_name v) = Some s"
    and "(Warning, ''No transcript available for '' @ v @ '': '' @ m)
                  \<in> set (entries_after w (snd (ensure_video_content e url w)))"
    and "Error \<notin> fst ` set (entries_after w (snd (ensure_video_content e url w)))"
    by simp_all
qed

theorem transcript_unavailable_tolerated_witness:
  "get_transcript sample_env ''abc'' = TrUnavailable ''Subtitles are disabled''
   \<and> fst (download_transcript sample_env ''abc'' ''/out/videos/abc'' empty_world) = None
   \<and> fst (ensure_video_content sample_env ''https://youtu.be/abc'' empty_world) = Inr (''abc'', ''/out/videos/abc'')
   \<and> files (snd (ensure_video_content sample_env ''https://youtu.be/abc'' empty_world)) (''/out/videos/abc'', transcript_name ''abc'') = None
   \<and> files (snd (ensure_video_content sample_env ''https://youtu.be/abc'' empty_world)) (''/out/videos/abc'', metadata_name ''abc'') = Some ''{}''
   \<and> files (snd (ensure_video_content sample_env ''https://youtu.be/abc'' empty_world)) (''/out/videos/abc'', summary_name ''abc'') = Some ''plain words''
   \<and> (Warning, ''No transcript available for abc: Subtitles are disabled'')
        \<in> set (entries_after empty_world (snd (ensure_video_content sample_env ''https://youtu.be/abc'' empty_world)))"
proof -
  have tr: "get_transcript sample_env ''abc'' = TrUnavailable ''Subtitles are disabled''"
    by (simp add: sample_env_def)
  have folder: "item_folder sample_env ''abc'' = ''/out/videos/abc''"
    by code_simp
  have absent: "\<not> file_exists empty_world ''/out/videos/abc'' (transcript_name ''abc'')"
    by (simp add: file_exists_def empty_world_def)
  have v: "extract_video_id sample_env ''https://youtu.be/abc'' = Inr ''abc''"
    by code_simp
  have nl: "fst (is_video_downloaded ''abc'' empty_world) = None"
    by code_simp
  have fresh: "\<forall>n. files empty_world (''/out/videos/abc'', n) = None"
    by (simp add: empty_world_def)
  have env: "yt_dlp_installed sample_env" "yt_dlp sample_env ''abc'' ''/out/videos/abc'' = DlOk ''media''"
    "youtube_api sample_env ''abc'' = MdSnippet ''{}''" "json_reformat sample_env ''{}'' = Some ''{}''"
    "prompt_template sample_env = Some (\<lambda>video_url video_metadata. video_url @ video_metadata)"
    "gemini sample_env (''https://www.youtube.com/watch?v='' @ ''abc'' @ ''{}'')
       (''https://www.youtube.com/watch?v='' @ ''abc'') = GmText ''plain words''"
    by (simp_all add: sample_env_def)
  from transcript_unavailable_tolerated [OF tr, of empty_world "''/out/videos/abc''" "''https://youtu.be/abc''" "''media''" "''{}''" "''{}''"
      "\<lambda>video_url video_metadata. video_url @ video_metadata" "''plain words''"]
    tr folder absent v nl fresh env
  show ?thesis by simp
qed

lemma generate_summary_never_warns:
  "Warning \<notin> fst ` set (entries_after w (snd (generate_summary e v f w)))"
  by (auto simp: generate_summary_def Let_def summary_failure_def entries_after_def
           split: option.splits gemini_reply.splits)

lemma persist_summary_warns:
  "json_reformat e output_text = None \<Longrightarrow>
   files (persist_summary e v f output_text w) (f, summary_name v) = Some output_text
   \<and> entries_after w (persist_summary e v f output_text w)
       = [(Warning, ''Fallback saved (invalid JSON): '' @ path_join f (summary_name v))]"
  by (simp add: persist_summary_def Let_def entries_after_def)

text \<open>
  Claim C7 at a failing input. The generation collaborator answers with the text
  \<open>plain words\<close>, which does not parse as JSON. \<open>generate_summary\<close> stores the text as it
  is and completes, as the claim says, but it logs two records of level \<open>INFO\<close> and no
  warning: the function never parses the text. The summary persistence of \<open>process_video\<close>
  in the menu-driven pipeline, on the same text, stores it and logs the warning.
\<close>

theorem generate_summary_plain_text:
  "json_reformat sample_env ''plain words'' = None
   \<and> fst (generate_summary sample_env ''abc'' ''/out/videos/abc''
        (write_file ''/out/videos/abc'' (metadata_name ''abc'') ''{}'' empty_world))
       = Inr ''/out/videos/abc/abc.json''
   \<and> files (snd (generate_summary sample_env ''abc'' ''/out/videos/abc''
        (write_file ''/out/videos/abc'' (metadata_name ''abc'') ''{}'' empty_world))) (''/out/videos/abc'', summary_name ''abc'') = Some ''plain words''
   \<and> entries_after (write_file ''/out/videos/abc'' (metadata_name ''abc'') ''{}'' empty_world)
        (snd (generate_summary sample_env ''abc'' ''/out/videos/abc''
        (write_file ''/out/videos/abc'' (metadata_name ''abc'') ''{}'' empty_world)))
       = [(Info, ''Calling Gemini API for video abc''),
          (Info, ''Summary generated and saved to /out/videos/abc/abc.json'')]
   \<and> entries_after (write_file ''/out/videos/abc'' (metadata_name ''abc'') ''{}'' empty_world)
        (persist_summary sample_env ''abc'' ''/out/videos/abc'' ''plain words''
           (write_file ''/out/videos/abc'' (metadata_name ''abc'') ''{}'' empty_world))
       = [(Warning, ''Fallback saved (invalid JSON): /out/videos/abc/abc.json'')]"
  by code_simp

lemma slot_invariant_files:
  "files w' = files w \<Longrightarrow> slot_invariant v w \<Longrightarrow> slot_invariant v w'"
  by (simp add: slot_invariant_def)

lemma slot_invariant_log_add [simp]:
  "slot_invariant v (log_add l m w) = slot_invariant v w"
  by (simp add: slot_invariant_def)

lemma slot_invariant_makedirs [simp]:
  "slot_invariant v (makedirs f w) = slot_invariant v w"
  by (simp add: slot_invariant_def)

lemma slot_invariant_write:
  assumes inv: "slot_invariant v w"
    and eq: "files w' = (files w)((f, n) \<mapsto> c)"
    and ok: "n = summary_name v \<Longrightarrow>
               files w (f, metadata_name v) \<noteq> None \<and> files w (f, media_name v) \<noteq> None"
  shows "slot_invariant v w'"
  unfolding slot_invariant_def
proof (intro allI impI)
  fix d
  assume s: "files w' (d, summary_name v) \<noteq> None"
  have mono: "files w' k \<noteq> None" if "files w k \<noteq> None" for k
    using that by (simp add: eq)
  have "files w (d, metadata_name v) \<noteq> None \<and> files w (d, media_name v) \<noteq> None"
  proof (cases "d = f \<and> n = summary_name v")
    case True
    with ok show ?thesis by simp
  next
    case False
    with s have "files w (d, summary_name v) \<noteq> None"
      by (simp add: eq split: if_splits)
    with inv show ?thesis
      unfolding slot_invariant_def by blast
  qed
  then show "files w' (d, metadata_name v) \<noteq> None \<and> files w' (d, media_name v) \<noteq> None"
    by (simp add: mono)
qed

lemma download_video_writes:
  "files (snd (download_video e v f w)) = files w
   \<or> (\<exists>c. files (snd (download_video e v f w)) = (files w)((f, media_name v) \<mapsto> c))"
  by (auto simp: download_video_def Let_def split: ytdlp_reply.splits)

lemma download_transcript_writes:
  "files (snd (download_transcript e v f w)) = files w
   \<or> (\<exists>c. files (snd (download_transcript e v f w)) = (files w)((f, transcript_name v) \<mapsto> c))"
  by (auto simp: download_transcript_def Let_def split: transcript_reply.splits)

lemma fetch_metadata_writes:
  "files (snd (fetch_metadata e v f w)) = files w
   \<or> (\<exists>c. files (snd (fetch_metadata e v f w)) = (files w)((f, metadata_name v) \<mapsto> c))"
  by (auto simp: fetch_metadata_def Let_def split: metadata_reply.splits)


lemma generate_summary_writes:
  "files (snd (generate_summary e v f w)) = files w
   \<or> (files w (f, metadata_name v) \<noteq> None
       \<and> (\<exists>c. files (snd (generate_summary e v f w)) = (files w)((f, summary_name v) \<mapsto> c)))"
  by (auto simp: generate_summary_def Let_def summary_failure_def
           split: option.splits gemini_reply.splits)


lemma download_video_inv:
  "slot_invariant v w \<Longrightarrow> slot_invariant v (snd (download_video e v f w))"
proof -
  assume inv: "slot_invariant v w"
  from download_video_writes [of e v f w]
  consider "files (snd (download_video e v f w)) = files w"
    | c where "files (snd (download_video e v f w)) = (files w)((f, media_name v) \<mapsto> c)"
    by blast
  then show ?thesis
  proof cases
    case 1
    then show ?thesis using inv by (rule slot_invariant_files)
  next
    case 2
    from inv 2 show ?thesis by (rule slot_invariant_write) simp
  qed
qed

lemma download_transcript_inv:
  "slot_invariant v w \<Longrightarrow> slot_invariant v (snd (download_transcript e v f w))"
proof -
  assume inv: "slot_invariant v w"
  from download_transcript_writes [of e v f w]
  consider "files (snd (download_transcript e v f w)) = files w"
    | c where "files (snd (download_transcript e v f w)) = (files w)((f, transcript_name v) \<mapsto> c)"
    by blast
  then show ?thesis
  proof cases
    case 1
    then show ?thesis using inv by (rule slot_invariant_files)
  next
    case 2
    from inv 2 show ?thesis by (rule slot_invariant_write) simp
  qed
qed

lemma fetch_metadata_inv:
  "slot_invariant v w \<Longrightarrow> slot_invariant v (snd (fetch_metadata e v f w))"
proof -
  assume inv: "slot_invariant v w"
  from fetch_metadata_writes [of e v f w]
  consider "files (snd (fetch_metadata e v f w)) = files w"
    | c where "files (snd (fetch_metadata e v f w)) = (files w)((f, metadata_name v) \<mapsto> c)"
    by blast
  then show ?thesis
  proof cases
    case 1
    then show ?thesis using inv by (rule slot_invariant_files)
  next
    case 2
    from inv 2 show ?thesis by (rule slot_invariant_write) simp
  qed
qed

lemma generate_summary_inv:
  assumes "slot_invariant v w" "files w (f, media_name v) \<noteq> None"
  shows "slot_invariant v (snd (generate_summary e v f w))"
proof -
  from generate_summary_writes [of e v f w]
  consider "files (snd (generate_summary e v f w)) = files w"
    | c where "files w (f, metadata_name v) \<noteq> None"
        "files (snd (generate_summary e v f w)) = (files w)((f, summary_name v) \<mapsto> c)"
    by blast
  then show ?thesis
  proof cases
    case 1
    then show ?thesis using assms(1) by (rule slot_invariant_files)
  next
    case 2
    from assms(1) 2(2) show ?thesis
      by (rule slot_invariant_write) (simp add: 2(1) assms(2))
  qed
qed

lemma acquire_inv:
  assumes "f \<in> set (dirs w)" "slot_invariant v w"
  shows "slot_invariant v (snd (acquire e url v f w))"
proof -
  let ?W1 = "log_add Info (''Downloading video for '' @ v) w"
  obtain r1 w3 where dl: "download_video e v f ?W1 = (r1, w3)"
    by (cases "download_video e v f ?W1")
  have i3: "slot_invariant v w3"
    using download_video_inv [of v ?W1 e f] dl assms(2) by simp
  have d3: "f \<in> set (dirs w3)"
    using download_video_within [OF _ dl] assms(1) by (simp add: within_def)
  show ?thesis
  proof (cases r1)
    case (Inl ex)
    with dl i3 show ?thesis by (simp add: acquire_def ensure_failure_def)
  next
    case (Inr p)
    have media3: "files w3 (f, media_name v) \<noteq> None"
      using dl Inr by (auto dest: download_video_stores)
    let ?W3 = "log_add Info (''Downloading transcript for '' @ v)
                 (log_add Info (''Video downloaded successfully to '' @ p) w3)"
    obtain r2 w4 where tr: "download_transcript e v f ?W3 = (r2, w4)"
      by (cases "download_transcript e v f ?W3")
    have i4: "slot_invariant v w4"
      using download_transcript_inv [of v ?W3 e f] tr i3 by simp
    have w34: "within f w3 w4"
      using download_transcript_within [OF _ tr] d3 by simp
    have d4: "f \<in> set (dirs w4)" using w34 d3 by (simp add: within_def)
    let ?W4 = "log_add Info (''Fetching metadata for '' @ v)
                 (log_add Info (''Transcript downloaded: ''
                                  @ (case r2 of None \<Rightarrow> ''None'' | Some p \<Rightarrow> p)) w4)"
    obtain r3 w5 where md: "fetch_metadata e v f ?W4 = (r3, w5)"
      by (cases "fetch_metadata e v f ?W4")
    have i5: "slot_invariant v w5"
      using fetch_metadata_inv [of v ?W4 e f] md i4 by simp
    have w45: "within f w4 w5"
      using fetch_metadata_within [OF _ md] d4 by simp
    have media5: "files w5 (f, media_name v) \<noteq> None"
      using media3 w34 w45 by (simp add: within_def)
    show ?thesis
    proof (cases r3)
      case (Inl ex)
      with dl Inr tr md i5 show ?thesis by (simp add: acquire_def ensure_failure_def)
    next
      case r3: (Inr mp)
      let ?W5 = "log_add Info (''Generating summary for '' @ v)
                   (log_add Info (''Metadata fetched: '' @ mp) w5)"
      obtain r4 w6 where gs: "generate_summary e v f ?W5 = (r4, w6)"
        by (cases "generate_summary e v f ?W5")
      have i6: "slot_invariant v w6"
        using generate_summary_inv [of v ?W5 f e] gs i5 media5 by simp
      from dl Inr tr md r3 gs i6 show ?thesis
        by (cases r4) (simp_all add: acquire_def ensure_failure_def)
    qed
  qed
qed

lemma ensure_inv:
  assumes "extract_video_id e url = Inr v" "slot_invariant v w"
  shows "slot_invariant v (snd (ensure_video_content e url w))"
proof (cases "fst (is_video_downloaded v w)")
  case (Some f)
  from ensure_located(3) [OF assms(1) Some] assms(2) show ?thesis
    by (rule slot_invariant_files)
next
  case None
  show ?thesis
    unfolding ensure_not_located [OF assms(1) None]
    by (rule acquire_inv) (simp_all add: assms(2))
qed

lemma summarize_inv:
  assumes "extract_video_id e url = Inr v" "slot_invariant v w"
  shows "slot_invariant v (snd (summarize_youtube_video e url w))"
proof -
  let ?W0 = "log_add Info (''Tool `summarize_youtube_video` received: '' @ url) w"
  obtain r1 w1 where en: "ensure_video_content e url ?W0 = (r1, w1)"
    by (cases "ensure_video_content e url ?W0")
  have i1: "slot_invariant v w1"
    using ensure_inv [OF assms(1), of ?W0] en assms(2) by simp
  show ?thesis
  proof (cases r1)
    case (Inl ex)
    with en i1 show ?thesis by (simp add: summarize_youtube_video_def summarize_failure_def)
  next
    case (Inr x)
    obtain v' f where x: "x = (v', f)" by (cases x)
    from en Inr x have run: "ensure_video_content e url ?W0 = (Inr (v', f), w1)" by simp
    from ensure_ok_located [OF run] assms(1)
    have v': "v' = v" and loc: "fst (is_video_downloaded v w1) = Some f" by simp_all
    from is_video_downloaded_Some [OF loc] have media: "files w1 (f, media_name v) \<noteq> None" by simp
    show ?thesis
    proof (cases "file_exists w1 f (summary_name v)")
      case True
      then obtain c where c: "files w1 (f, summary_name v) = Some c"
        by (auto simp: file_exists_def)
      from run v' True c i1 show ?thesis
        by (simp add: summarize_youtube_video_def)
    next
      case False
      let ?W1 = "log_add Warning (''Summary not found for '' @ v @ ''. Generating now.'') w1"
      obtain r2 w2 where gs: "generate_summary e v f ?W1 = (r2, w2)"
        by (cases "generate_summary e v f ?W1")
      have i2: "slot_invariant v w2"
        using generate_summary_inv [of v ?W1 f e] gs i1 media by simp
      show ?thesis
      proof (cases r2)
        case (Inl ex)
        with run v' False gs i2 show ?thesis
          by (simp add: summarize_youtube_video_def summarize_failure_def)
      next
        case (Inr sp)
        with run v' False gs i2 show ?thesis
          by (cases "files w2 (f, summary_name v)")
             (simp_all add: summarize_youtube_video_def summarize_failure_def)
      qed
    qed
  qed
qed

text \<open>
  Claim C8 (artifact-slot invariant). For the item a URL names, the pipeline
  \<open>ensure_video_content\<close> and the tool \<open>summarize_youtube_video\<close>, which runs the
  pipeline and then generates a missing summary, preserve the invariant that in every
  directory the summary artifact \<open>{id}.json\<close> comes with the metadata artifact
  \<open>{id}_metadata.json\<close> and the media artifact: \<open>generate_summary\<close> writes the summary
  only after it has loaded the metadata file of the same folder, and both callers reach it
  only with the media file in that folder.
\<close>

theorem slot_invariant_preserved:
  assumes "extract_video_id e url = Inr v" "slot_invariant v w"
  shows "slot_invariant v (snd (ensure_video_content e url w))
       \<and> slot_invariant v (snd (summarize_youtube_video e url w))
       \<and> (files (snd (generate_summary e v f w)) = files w
            \<or> (files w (f, metadata_name v) \<noteq> None
                \<and> (\<exists>c. files (snd (generate_summary e v f w))
                          = (files w)((f, summary_name v) \<mapsto> c))))"
  using ensure_inv [OF assms] summarize_inv [OF assms] generate_summary_writes [of e v f w]
  by blast

theorem slot_invariant_preserved_witness:
  "extract_video_id sample_env ''https://youtu.be/abc'' = Inr ''abc''
   \<and> slot_invariant ''abc'' empty_world
   \<and> slot_invariant ''abc'' (snd (ensure_video_content sample_env ''https://youtu.be/abc'' empty_world))
   \<and> slot_invariant ''abc'' (snd (summarize_youtube_video sample_env ''https://youtu.be/abc'' empty_world))
   \<and> files (snd (ensure_video_content sample_env ''https://youtu.be/abc'' empty_world)) (''/out/videos/abc'', summary_name ''abc'') = Some ''plain words''
   \<and> files (snd (ensure_video_content sample_env ''https://youtu.be/abc'' empty_world)) (''/out/videos/abc'', metadata_name ''abc'') = Some ''{}''
   \<and> files (snd (ensure_video_content sample_env ''https://youtu.be/abc'' empty_world)) (''/out/videos/abc'', media_name ''abc'') = Some ''media''"
proof -
  have v: "extract_video_id sample_env ''https://youtu.be/abc'' = Inr ''abc''"
    by code_simp
  have inv: "slot_invariant ''abc'' empty_world"
    by (simp add: slot_invariant_def empty_world_def)
  have stored: "files (snd (ensure_video_content sample_env ''https://youtu.be/abc'' empty_world)) (''/out/videos/abc'', summary_name ''abc'') = Some ''plain words''"
    "files (snd (ensure_video_content sample_env ''https://youtu.be/abc'' empty_world)) (''/out/videos/abc'', metadata_name ''abc'') = Some ''{}''"
    "files (snd (ensure_video_content sample_env ''https://youtu.be/abc'' empty_world)) (''/out/videos/abc'', media_name ''abc'') = Some ''media''"
    by code_simp+
  from slot_invariant_preserved [OF v inv] v inv stored show ?thesis
    by simp
qed

end
